theory Spec2Isabelle
  imports Complex_Main
begin

unbundle bit_operations_syntax

section \<open>Errors and sequencing\<close>

text \<open>
  The engine (\<^verbatim>\<open>src/scarr/engines/lra_wht.py\<close>) raises no exception of its own; every
  failure is one that Python, numpy or scipy raises. Each of them is a value here.
\<close>

datatype error = IndexError | ValueError | LinAlgError

definition bindE :: "error + 'a \<Rightarrow> ('a \<Rightarrow> error + 'b) \<Rightarrow> error + 'b" where
  "bindE m f = (case m of Inl e \<Rightarrow> Inl e | Inr x \<Rightarrow> f x)"

text \<open>A loop that builds one result per element and stops at the first exception.\<close>

fun mapE :: "('a \<Rightarrow> error + 'b) \<Rightarrow> 'a list \<Rightarrow> error + 'b list" where
  "mapE f [] = Inr []"
| "mapE f (x # xs) = bindE (f x) (\<lambda>y. bindE (mapE f xs) (\<lambda>ys. Inr (y # ys)))"

section \<open>Arrays\<close>

text \<open>
  A one-dimensional float array is a \<open>real list\<close>, a two-dimensional one the list of
  its rows. Samples are real numbers: rounding is not modelled. numpy broadcasts a
  one-element array against any length; every other length mismatch raises ValueError.
\<close>

definition broadcast_to :: "nat \<Rightarrow> real list \<Rightarrow> error + real list" where
  "broadcast_to n xs =
     (if length xs = n then Inr xs
      else if length xs = 1 then Inr (replicate n (hd xs))
      else Inl ValueError)"

section \<open>The average-trace accumulator (class AverageTraces)\<close>

record AverageTraces =
  avtraces :: "real list list"
  counters :: "nat list"

text \<open>\<^verbatim>\<open>__init__\<close>: \<open>np.zeros((num_values, trace_length))\<close> and \<open>np.zeros(num_values)\<close>.\<close>

definition AverageTraces_init :: "nat \<Rightarrow> nat \<Rightarrow> AverageTraces" where
  "AverageTraces_init num_values trace_length =
     \<lparr>avtraces = replicate num_values (replicate trace_length 0),
      counters = replicate num_values 0\<rparr>"

text \<open>
  \<^verbatim>\<open>add_trace(self, data, trace)\<close>. The index \<open>data\<close> is a byte value (unsigned); an index
  past the end raises IndexError. In the \<open>else\<close> branch the divisor is the counter as it
  stands before the increment of the last line, exactly as the source has it.
\<close>

definition add_trace :: "AverageTraces \<Rightarrow> nat \<Rightarrow> real list \<Rightarrow> error + AverageTraces" where
  "add_trace self data trace =
     (if data < length (counters self) \<and> data < length (avtraces self) then
        bindE (broadcast_to (length (avtraces self ! data)) trace) (\<lambda>t.
          let row = (if counters self ! data = 0 then t
                     else map2 (\<lambda>a x. a + (x - a) / real (counters self ! data))
                            (avtraces self ! data) t)
          in Inr \<lparr>avtraces = (avtraces self)[data := row],
                  counters = (counters self)[data := counters self ! data + 1]\<rparr>)
      else Inl IndexError)"

text \<open>Adding several traces for one byte value, one call after the other.\<close>

fun add_traces :: "AverageTraces \<Rightarrow> nat \<Rightarrow> real list list \<Rightarrow> error + AverageTraces" where
  "add_traces self data [] = Inr self"
| "add_traces self data (t # ts) = bindE (add_trace self data t) (\<lambda>s. add_traces s data ts)"

text \<open>\<^verbatim>\<open>np.flatnonzero\<close>: the indices of the non-zero entries, ascending.\<close>

definition flatnonzero :: "nat list \<Rightarrow> nat list" where
  "flatnonzero cs = filter (\<lambda>i. cs ! i \<noteq> 0) [0..<length cs]"

text \<open>\<^verbatim>\<open>get_data(self)\<close>; \<open>self.avtraces[avdata_snap]\<close> selects rows by index.\<close>

definition get_data :: "AverageTraces \<Rightarrow> error + (nat list \<times> real list list)" where
  "get_data self =
     (let avdata_snap = flatnonzero (counters self) in
      bindE (mapE (\<lambda>i. if i < length (avtraces self) then Inr (avtraces self ! i)
                        else Inl IndexError) avdata_snap)
        (\<lambda>avtraces_snap. Inr (avdata_snap, avtraces_snap)))"

text \<open>The batch mean the specification compares with: sum the traces, divide by the count.\<close>

definition batch_mean :: "real list list \<Rightarrow> real list" where
  "batch_mean ts =
     (case ts of [] \<Rightarrow> []
      | t0 # _ \<Rightarrow> map (\<lambda>j. (\<Sum>t\<leftarrow>ts. t ! j) / real (length ts)) [0..<length t0])"

section \<open>The bit-model builder\<close>

text \<open>
  \<^verbatim>\<open>model_single_bits(x, bit_width)\<close>. Python integers are unbounded and \<open>>>\<close> is the
  arithmetic shift; \<open>range(0, bit_width)\<close> is empty for a width below one.
\<close>

definition model_single_bits :: "int \<Rightarrow> int \<Rightarrow> int list" where
  "model_single_bits x bit_width =
     map (\<lambda>i. drop_bit i x AND 1) [0..<nat bit_width] @ [1]"

definition wrapper :: "int \<Rightarrow> int \<Rightarrow> int list" where
  "wrapper y = (\<lambda>x. model_single_bits x y)"

section \<open>Floating-point results of a division\<close>

text \<open>
  Trace samples and sums of them are finite. numpy divides by zero without raising: the
  result is an infinity or NaN, which the code then carries on. A value that may come
  out of a division is therefore one of these four. Zero has no sign here, and a
  non-zero finite result does not overflow.
\<close>

datatype npfloat = Finite real | PosInf | NegInf | NaN

fun np_div :: "npfloat \<Rightarrow> npfloat \<Rightarrow> npfloat" where
  "np_div NaN y = NaN"
| "np_div x NaN = NaN"
| "np_div (Finite a) (Finite b) =
     (if b = 0 then (if a = 0 then NaN else if 0 < a then PosInf else NegInf)
      else Finite (a / b))"
| "np_div (Finite a) PosInf = Finite 0"
| "np_div (Finite a) NegInf = Finite 0"
| "np_div PosInf (Finite b) = (if 0 \<le> b then PosInf else NegInf)"
| "np_div NegInf (Finite b) = (if 0 \<le> b then NegInf else PosInf)"
| "np_div PosInf PosInf = NaN"
| "np_div PosInf NegInf = NaN"
| "np_div NegInf PosInf = NaN"
| "np_div NegInf NegInf = NaN"

fun np_sub :: "npfloat \<Rightarrow> npfloat \<Rightarrow> npfloat" where
  "np_sub NaN y = NaN"
| "np_sub x NaN = NaN"
| "np_sub (Finite a) (Finite b) = Finite (a - b)"
| "np_sub (Finite a) PosInf = NegInf"
| "np_sub (Finite a) NegInf = PosInf"
| "np_sub PosInf (Finite b) = PosInf"
| "np_sub NegInf (Finite b) = NegInf"
| "np_sub PosInf PosInf = NaN"
| "np_sub PosInf NegInf = PosInf"
| "np_sub NegInf PosInf = NegInf"
| "np_sub NegInf NegInf = NaN"

text \<open>
  The order in which \<open>np.max\<close> and \<open>np.argmax\<close> compare: the usual order of the
  extended reals, with NaN above everything (a NaN, once met, is the maximum).
\<close>

fun np_less :: "npfloat \<Rightarrow> npfloat \<Rightarrow> bool" where
  "np_less NaN y = False"
| "np_less x NaN = True"
| "np_less (Finite a) (Finite b) = (a < b)"
| "np_less (Finite a) PosInf = True"
| "np_less (Finite a) NegInf = False"
| "np_less PosInf y = False"
| "np_less NegInf NegInf = False"
| "np_less NegInf y = True"

definition np_le :: "npfloat \<Rightarrow> npfloat \<Rightarrow> bool" where
  "np_le x y = (\<not> np_less y x)"

definition np_maximum :: "npfloat \<Rightarrow> npfloat \<Rightarrow> npfloat" where
  "np_maximum a b = (if np_less a b then b else a)"

text \<open>\<open>np.max\<close> of a one-dimensional array; an empty array has no maximum (ValueError).\<close>

definition np_max :: "npfloat list \<Rightarrow> error + npfloat" where
  "np_max xs = (case xs of [] \<Rightarrow> Inl ValueError | x # rest \<Rightarrow> Inr (foldl np_maximum x rest))"

text \<open>
  \<open>np.argmax\<close>: one pass that keeps the index of the best value so far and replaces it
  only by a value that compares above it, so the first occurrence of the maximum wins.
\<close>

fun argmax_scan :: "npfloat list \<Rightarrow> nat \<Rightarrow> nat \<Rightarrow> npfloat \<Rightarrow> nat" where
  "argmax_scan [] i best_i best = best_i"
| "argmax_scan (x # xs) i best_i best =
     (if np_less best x then argmax_scan xs (Suc i) i x
      else argmax_scan xs (Suc i) best_i best)"

definition np_argmax :: "npfloat list \<Rightarrow> error + nat" where
  "np_argmax xs = (case xs of [] \<Rightarrow> Inl ValueError | x # rest \<Rightarrow> Inr (argmax_scan rest 1 0 x))"

text \<open>An elementwise binary operation pairs its operands after broadcasting.\<close>

definition broadcast2 :: "'a list \<Rightarrow> 'b list \<Rightarrow> error + ('a \<times> 'b) list" where
  "broadcast2 xs ys =
     (if length xs = length ys then Inr (zip xs ys)
      else if length xs = 1 then Inr (map (\<lambda>y. (hd xs, y)) ys)
      else if length ys = 1 then Inr (map (\<lambda>x. (x, hd ys)) xs)
      else Inl ValueError)"

section \<open>The Hadamard transform pair\<close>

text \<open>
  \<open>scipy.linalg.hadamard(n)\<close> takes the integer part \<open>lg2\<close> of the binary logarithm of
  \<open>n\<close> (0 for \<open>n < 1\<close>), raises ValueError unless \<open>2 ** lg2 = n\<close>, and doubles the
  matrix \<open>[[1]]\<close> \<open>lg2\<close> times: \<open>H \<mapsto> [[H, H], [H, -H]]\<close>.
\<close>

fun ilog2 :: "nat \<Rightarrow> nat" where
  "ilog2 n = (if n < 2 then 0 else Suc (ilog2 (n div 2)))"

declare ilog2.simps [simp del]

fun hadamard_doubled :: "nat \<Rightarrow> int list list" where
  "hadamard_doubled 0 = [[1]]"
| "hadamard_doubled (Suc i) =
     (let H = hadamard_doubled i
      in map (\<lambda>r. r @ r) H @ map (\<lambda>r. r @ map uminus r) H)"

definition hadamard :: "nat \<Rightarrow> error + int list list" where
  "hadamard n =
     (let lg2 = (if n < 1 then 0 else ilog2 n)
      in if 2 ^ lg2 \<noteq> n then Inl ValueError else Inr (hadamard_doubled lg2))"

text \<open>\<open>H @ x\<close> for the integer matrix \<open>H\<close> and a float vector of as many entries as \<open>H\<close> has columns.\<close>

definition dot :: "int list \<Rightarrow> real list \<Rightarrow> real" where
  "dot r x = (\<Sum>(h, v)\<leftarrow>zip r x. real_of_int h * v)"

definition matvec :: "int list list \<Rightarrow> real list \<Rightarrow> real list" where
  "matvec H x = map (\<lambda>r. dot r x) H"

definition WHT :: "real list \<Rightarrow> error + real list" where
  "WHT x =
     (let n = length x
      in bindE (hadamard n) (\<lambda>H. Inr (map (\<lambda>y. y / real n) (matvec H x))))"

definition iWHT :: "real list \<Rightarrow> error + real list" where
  "iWHT x = (let n = length x in bindE (hadamard n) (\<lambda>H. Inr (matvec H x)))"

section \<open>The transform pair in float64 arithmetic\<close>











text \<open>A value on the grid \<open>2 ^ j\<close> with a numerator of magnitude at most \<open>B\<close>.\<close>

definition on_grid :: "int \<Rightarrow> int \<Rightarrow> real \<Rightarrow> bool" where
  "on_grid j B v = (\<exists>m::int. v = of_int m * 2 powr of_int j \<and> \<bar>m\<bar> \<le> B)"



section \<open>The LRA scorer\<close>

text \<open>\<^verbatim>\<open>s_box_out(data, key_byte, sbox)\<close>: \<open>sbox[data ^ key_byte]\<close>, elementwise.\<close>

definition s_box_out :: "nat list \<Rightarrow> nat \<Rightarrow> nat list \<Rightarrow> error + nat list" where
  "s_box_out data key_byte sbox =
     mapE (\<lambda>d. let s_box_in = d XOR key_byte
                in if s_box_in < length sbox then Inr (sbox ! s_box_in) else Inl IndexError)
       data"

text \<open>
  \<open>np.linalg.cholesky\<close> and \<open>scipy.linalg.solve_triangular\<close> are library routines; the
  scorer is modelled for whatever they return. \<open>solve_triangular\<close> takes the matrix,
  the right-hand side and the flag \<open>lower\<close>.
\<close>

record linalg =
  cholesky :: "real list list \<Rightarrow> error + real list list"
  solve_triangular :: "real list list \<Rightarrow> real list list \<Rightarrow> bool \<Rightarrow> error + real list list"

text \<open>\<open>A @ B\<close> for two matrices. Its one use is \<open>M0.T @ M0\<close>, where the shapes agree.\<close>

definition matmul :: "real list list \<Rightarrow> real list list \<Rightarrow> real list list" where
  "matmul A B = map (\<lambda>r. map (\<lambda>c. \<Sum>(a, b)\<leftarrow>zip r c. a * b) (transpose B)) A"

text \<open>
  The shape of a two-dimensional array given by its rows. A list of rows of different
  lengths is no array. The array without rows is taken to have no columns.
\<close>

definition shape2 :: "'a list list \<Rightarrow> error + (nat \<times> nat)" where
  "shape2 A =
     (case A of [] \<Rightarrow> Inr (0, 0)
      | r # rs \<Rightarrow> if list_all (\<lambda>r'. length r' = length r) rs then Inr (length A, length r)
                  else Inl ValueError)"

definition column :: "'a list list \<Rightarrow> nat \<Rightarrow> 'a list" where
  "column A i = map (\<lambda>r. r ! i) A"

text \<open>
  The body of the loop over the sample points of \<^verbatim>\<open>lra\<close>, for the sample point \<open>i\<close>:
  the 256 entries \<open>R2[key_byte, i]\<close>. \<open>ncols\<close> is \<open>U0.shape[1]\<close>, the width of the rows
  of \<open>U0_iwht\<close>. The rows \<open>U0_iwht[p, :]\<close> are assigned for \<open>p\<close> below the last row, and
  \<open>U0_iwht[:-1, key_byte]\<close> reads exactly those. The quotient \<open>SSR / sst[i]\<close> is taken
  as it is written.
\<close>

definition lra_sample ::
  "real list list \<Rightarrow> real list list \<Rightarrow> npfloat list \<Rightarrow> nat \<Rightarrow> nat \<Rightarrow> error + npfloat list" where
  "lra_sample U0_wht traces sst ncols i =
     bindE (WHT (column traces i)) (\<lambda>WL.
     bindE (mapE (\<lambda>row. bindE (broadcast2 row WL) (\<lambda>ps.
                         bindE (iWHT (map (\<lambda>(a, b). a * b) ps)) (broadcast_to ncols)))
              (butlast U0_wht)) (\<lambda>U0_iwht.
     mapE (\<lambda>key_byte.
            if key_byte < ncols then
              (let SSR = (\<Sum>row\<leftarrow>U0_iwht. (row ! key_byte)\<^sup>2)
               in if i < length sst then Inr (np_div (Finite SSR) (sst ! i))
                  else Inl IndexError)
            else Inl IndexError)
       [0..<256]))"

text \<open>
  \<^verbatim>\<open>lra(data, traces, sbox, sst)\<close>. \<open>M0\<close> is built from a Python list of rows: with no
  row it is an empty one-dimensional array, \<open>M0.T @ M0\<close> is then a scalar, and
  \<open>np.linalg.cholesky\<close> rejects it (LinAlgError) before any factorisation. The result
  is the list of the 256 rows of \<open>R2\<close>.
\<close>

definition lra ::
  "linalg \<Rightarrow> nat list \<Rightarrow> real list list \<Rightarrow> nat list \<Rightarrow> npfloat list \<Rightarrow> error + npfloat list list" where
  "lra lin data traces sbox sst =
     bindE (shape2 traces) (\<lambda>(num_traces, trace_length).
     bindE (s_box_out data 0 sbox) (\<lambda>intermediate_var.
     let M0 = map (\<lambda>x. map real_of_int (wrapper 8 (int x))) intermediate_var in
     bindE (if M0 = [] then Inl LinAlgError else cholesky lin (matmul (transpose M0) M0)) (\<lambda>Tm.
     bindE (solve_triangular lin (transpose Tm) (transpose M0) True) (\<lambda>U0.
     bindE (mapE WHT U0) (\<lambda>U0_wht.
     let ncols = (case U0 of [] \<Rightarrow> 0 | r # rs \<Rightarrow> length r) in
     bindE (mapE (lra_sample U0_wht traces sst ncols) [0..<trace_length]) (\<lambda>cols.
     Inr (map (\<lambda>key_byte. map (\<lambda>col. col ! key_byte) cols) [0..<256])))))))"

section \<open>The engine (class LRA)\<close>

definition aes_sbox :: "nat list" where
  "aes_sbox = [
      99, 124, 119, 123, 242, 107, 111, 197, 48, 1, 103, 43, 254, 215, 171, 118,
      202, 130, 201, 125, 250, 89, 71, 240, 173, 212, 162, 175, 156, 164, 114, 192,
      183, 253, 147, 38, 54, 63, 247, 204, 52, 165, 229, 241, 113, 216, 49, 21,
      4, 199, 35, 195, 24, 150, 5, 154, 7, 18, 128, 226, 235, 39, 178, 117,
      9, 131, 44, 26, 27, 110, 90, 160, 82, 59, 214, 179, 41, 227, 47, 132,
      83, 209, 0, 237, 32, 252, 177, 91, 106, 203, 190, 57, 74, 76, 88, 207,
      208, 239, 170, 251, 67, 77, 51, 133, 69, 249, 2, 127, 80, 60, 159, 168,
      81, 163, 64, 143, 146, 157, 56, 245, 188, 182, 218, 33, 16, 255, 243, 210,
      205, 12, 19, 236, 95, 151, 68, 23, 196, 167, 126, 61, 100, 93, 25, 115,
      96, 129, 79, 220, 34, 42, 144, 136, 70, 238, 184, 20, 222, 94, 11, 219,
      224, 50, 58, 10, 73, 6, 36, 92, 194, 211, 172, 98, 145, 149, 228, 121,
      231, 200, 55, 109, 141, 213, 78, 169, 108, 86, 244, 234, 101, 122, 174, 8,
      186, 120, 37, 46, 28, 166, 180, 198, 232, 221, 116, 31, 75, 189, 139, 138,
      112, 62, 181, 102, 72, 3, 246, 14, 97, 53, 87, 185, 134, 193, 29, 158,
      225, 248, 152, 17, 105, 217, 142, 148, 155, 30, 135, 233, 206, 85, 40, 223,
      140, 161, 137, 13, 191, 230, 66, 104, 65, 153, 45, 15, 176, 84, 187, 22]"

text \<open>
  The attributes the engine reads. \<open>samples_range\<close> is the difference of the two ends of
  the sample range and may be negative; the ends themselves are taken to be natural
  numbers.
\<close>

record engine =
  sbox :: "nat list"
  samples_range :: int
  samples_start :: nat
  samples_end :: nat

definition LRA_init :: engine where
  "LRA_init = \<lparr>sbox = aes_sbox, samples_range = 0, samples_start = 0, samples_end = 0\<rparr>"

text \<open>
  \<open>np.zeros(n)\<close> raises ValueError for a negative \<open>n\<close>; so does the constructor of
  \<open>AverageTraces\<close>.
\<close>

definition np_zeros :: "int \<Rightarrow> error + real list" where
  "np_zeros n = (if n < 0 then Inl ValueError else Inr (replicate (nat n) 0))"

definition AverageTraces_new :: "nat \<Rightarrow> int \<Rightarrow> error + AverageTraces" where
  "AverageTraces_new num_values trace_length =
     (if trace_length < 0 then Inl ValueError
      else Inr (AverageTraces_init num_values (nat trace_length)))"

subsection \<open>The store of the arrays updated in place\<close>

text \<open>
  \<open>u\<close> and \<open>v\<close> are numpy arrays: \<^verbatim>\<open>update\<close> receives references to them, adds to them in
  place and returns the same references. The arrays therefore live in a store, and
  \<open>u\<close>, \<open>v\<close>, \<open>tmp_u\<close>, \<open>tmp_v\<close> are addresses. \<open>n_tr\<close> is a Python integer, passed and
  returned by value. The accumulator is one object, passed on from call to call.
\<close>

type_synonym store = "nat \<Rightarrow> real list"

text \<open>\<open>a += b\<close> for the array at address \<open>a\<close>: \<open>b\<close> must broadcast to the shape of \<open>a\<close>.\<close>

definition iadd :: "store \<Rightarrow> nat \<Rightarrow> real list \<Rightarrow> error + store" where
  "iadd h a b =
     bindE (broadcast_to (length (h a)) b) (\<lambda>b'. Inr (h(a := map2 (+) (h a) b')))"

text \<open>
  \<^verbatim>\<open>update\<close>: the loop over the rows of the batch; \<open>plaintext[i]\<close> raises IndexError when
  the plaintext column is shorter than the trace matrix.
\<close>

fun update_rows ::
  "real list list \<Rightarrow> nat list \<Rightarrow> AverageTraces \<Rightarrow> nat \<Rightarrow> nat \<Rightarrow> nat \<Rightarrow> store
     \<Rightarrow> error + (AverageTraces \<times> nat \<times> store)" where
  "update_rows [] plaintext average_traces n_tr v u h = Inr (average_traces, n_tr, h)"
| "update_rows (t # ts) [] average_traces n_tr v u h = Inl IndexError"
| "update_rows (t # ts) (g # gs) average_traces n_tr v u h =
     bindE (add_trace average_traces g t) (\<lambda>average_traces'.
     bindE (iadd h u t) (\<lambda>h1.
     bindE (iadd h1 v (map (\<lambda>x. x * x) t)) (\<lambda>h2.
     update_rows ts gs average_traces' (n_tr + 1) v u h2)))"

definition update ::
  "real list list \<Rightarrow> nat list \<Rightarrow> AverageTraces \<Rightarrow> nat \<Rightarrow> nat \<Rightarrow> nat \<Rightarrow> store
     \<Rightarrow> error + ((AverageTraces \<times> nat \<times> nat \<times> nat) \<times> store)" where
  "update traces plaintext average_traces n_tr v u h =
     bindE (update_rows traces plaintext average_traces n_tr v u h)
       (\<lambda>(average_traces', n_tr', h'). Inr ((average_traces', n_tr', v, u), h'))"

text \<open>
  \<^verbatim>\<open>calculate\<close>, line by line: \<open>sst = v - (u ** 2) / n_tr\<close>, the scorer, the maximum of
  every row of \<open>r2\<close>, the index of the first largest peak. The printed line is left out.
\<close>

definition calc_sst :: "real list \<Rightarrow> real list \<Rightarrow> nat \<Rightarrow> error + npfloat list" where
  "calc_sst v u n_tr =
     bindE (broadcast2 v u) (\<lambda>ps.
       Inr (map (\<lambda>(vj, uj). np_sub (Finite vj) (np_div (Finite (uj\<^sup>2)) (Finite (real n_tr)))) ps))"

definition calculate ::
  "linalg \<Rightarrow> engine \<Rightarrow> nat \<Rightarrow> AverageTraces \<Rightarrow> nat \<Rightarrow> real list \<Rightarrow> real list \<Rightarrow> error + nat" where
  "calculate lin self byte_idx average_traces n_tr v u =
     bindE (get_data average_traces) (\<lambda>(plain, trace).
     bindE (calc_sst v u n_tr) (\<lambda>sst.
     bindE (lra lin plain trace (sbox self) sst) (\<lambda>r2.
     bindE (mapE np_max r2) (\<lambda>r2_peaks.
     np_argmax r2_peaks))))"

subsection \<open>The container and one unit of work\<close>

text \<open>
  The container is the acquisition collaborator: its tiles, its key-byte positions, the
  length of a trace, and the finite stream of batches that \<open>get_batches\<close> yields for a
  tile once the container is configured for one position. A batch is the plaintext
  column (\<open>batch[0]\<close>, flattened) and the trace matrix (\<open>batch[-1]\<close>).
\<close>

type_synonym batch = "nat list \<times> real list list"

record container =
  tiles :: "(int \<times> int) list"
  model_positions :: "nat list"
  sample_length :: nat
  get_batches :: "(int \<times> int) \<Rightarrow> nat \<Rightarrow> batch list"

text \<open>
  The loop of \<^verbatim>\<open>run_workload\<close> over the batches. \<open>batch[-1][:, start:end]\<close> cuts every
  row. After \<^verbatim>\<open>update\<close> has returned, \<open>v += tmp_v\<close> reads the array at \<open>tmp_v\<close> from the
  store and adds it to the array at \<open>v\<close>.
\<close>

fun run_batches ::
  "engine \<Rightarrow> batch list \<Rightarrow> AverageTraces \<Rightarrow> nat \<Rightarrow> nat \<Rightarrow> nat \<Rightarrow> store
     \<Rightarrow> error + (AverageTraces \<times> nat \<times> store)" where
  "run_batches self [] average_traces n_tr v u h = Inr (average_traces, n_tr, h)"
| "run_batches self (batch # rest) average_traces n_tr v u h =
     bindE (update
              (map (\<lambda>row. take (samples_end self - samples_start self)
                             (drop (samples_start self) row)) (snd batch))
              (fst batch) average_traces n_tr v u h)
       (\<lambda>((average_traces', tmp_n_tr, tmp_v, tmp_u), h1).
          bindE (iadd h1 v (h1 tmp_v)) (\<lambda>h2.
          bindE (iadd h2 u (h2 tmp_u)) (\<lambda>h3.
          run_batches self rest average_traces' (n_tr + tmp_n_tr) v u h3)))"

text \<open>
  The state of a unit when its stream is exhausted: the accumulator, \<open>n_tr\<close>, \<open>v\<close> and
  \<open>u\<close>. \<open>v\<close> is allocated at address 0 and \<open>u\<close> at address 1.
\<close>

definition run_workload_state ::
  "engine \<Rightarrow> batch list \<Rightarrow> AverageTraces
     \<Rightarrow> error + (AverageTraces \<times> nat \<times> real list \<times> real list)" where
  "run_workload_state self batches average_traces =
     bindE (np_zeros (samples_range self)) (\<lambda>zv.
     bindE (np_zeros (samples_range self)) (\<lambda>zu.
     bindE (run_batches self batches average_traces 0 0 1 ((\<lambda>a. [])(0 := zv, 1 := zu)))
       (\<lambda>(average_traces', n_tr, h). Inr (average_traces', n_tr, h 0, h 1))))"

definition run_workload ::
  "linalg \<Rightarrow> engine \<Rightarrow> container \<Rightarrow> AverageTraces \<Rightarrow> int \<Rightarrow> int \<Rightarrow> nat
     \<Rightarrow> error + (int \<times> int \<times> nat \<times> nat)" where
  "run_workload lin self cont average_traces tile_x tile_y model_pos =
     bindE (run_workload_state self (get_batches cont (tile_x, tile_y) model_pos) average_traces)
       (\<lambda>(average_traces', n_tr, v, u).
          bindE (calculate lin self model_pos average_traces' n_tr v u) (\<lambda>key_byte.
          Inr (tile_x, tile_y, model_pos, key_byte)))"

subsection \<open>The dispatcher and the key assembler\<close>

text \<open>\<open>list.index\<close>: the first position of an element, ValueError when it is absent.\<close>

fun index_of :: "'a list \<Rightarrow> 'a \<Rightarrow> error + nat" where
  "index_of [] y = Inl ValueError"
| "index_of (x # xs) y = (if x = y then Inr 0 else bindE (index_of xs y) (\<lambda>i. Inr (Suc i)))"

text \<open>The loop over \<open>starmap_results\<close>: every byte is appended to the key of its tile.\<close>

fun assemble ::
  "(int \<times> int) list \<Rightarrow> (int \<times> int \<times> nat \<times> nat) list \<Rightarrow> nat list list \<Rightarrow> error + nat list list" where
  "assemble tls [] aes_key = Inr aes_key"
| "assemble tls ((tile_x, tile_y, model_pos, tmp_key_byte) # rest) aes_key =
     bindE (index_of tls (tile_x, tile_y)) (\<lambda>tile_index.
       assemble tls rest (aes_key[tile_index := aes_key ! tile_index @ [tmp_key_byte]]))"

text \<open>\<open>bytes(key)\<close> raises ValueError for an entry above 255.\<close>

definition bytes :: "nat list \<Rightarrow> error + nat list" where
  "bytes key = (if list_all (\<lambda>b. b < 256) key then Inr key else Inl ValueError)"

text \<open>
  The first lines of \<^verbatim>\<open>run\<close>: the sample range is the whole trace when no range is
  given, and the given pair of ends otherwise.
\<close>

definition run_setup :: "engine \<Rightarrow> container \<Rightarrow> (nat \<times> nat) option \<Rightarrow> engine" where
  "run_setup self cont samples_range_arg =
     (case samples_range_arg of
        None \<Rightarrow> self\<lparr>samples_range := int (sample_length cont),
                     samples_start := 0, samples_end := sample_length cont\<rparr>
      | Some (a, b) \<Rightarrow> self\<lparr>samples_range := int b - int a,
                           samples_start := a, samples_end := b\<rparr>)"

text \<open>
  The rest of \<^verbatim>\<open>run\<close>, with the function that the pool maps over the workload as the
  parameter \<open>work\<close>. Every unit gets the engine, the container, the accumulator
  \<open>self.average_traces[model_pos]\<close>, its tile and its position. \<open>pool.starmap\<close> returns
  the results in the order of the workload; an exception in a unit is raised again by
  it. The result is \<open>self.aes_key\<close>. The size of the pool is not modelled.
\<close>

definition run_units ::
  "(engine \<Rightarrow> container \<Rightarrow> AverageTraces \<Rightarrow> int \<Rightarrow> int \<Rightarrow> nat \<Rightarrow> error + (int \<times> int \<times> nat \<times> nat))
     \<Rightarrow> engine \<Rightarrow> container \<Rightarrow> (nat \<times> nat) option \<Rightarrow> error + nat list list" where
  "run_units work self0 cont samples_range_arg =
     (let self = run_setup self0 cont samples_range_arg in
      bindE (mapE (\<lambda>p. AverageTraces_new 256 (samples_range self)) (model_positions cont))
        (\<lambda>average_traces.
      let aes_key = replicate (length (tiles cont)) [] in
      bindE (mapE (\<lambda>(tile, model_pos).
                     if model_pos < length average_traces
                     then Inr (average_traces ! model_pos, fst tile, snd tile, model_pos)
                     else Inl IndexError)
               (concat (map (\<lambda>tile. map (\<lambda>model_pos. (tile, model_pos)) (model_positions cont))
                          (tiles cont))))
        (\<lambda>workload.
      bindE (mapE (\<lambda>(acc, tile_x, tile_y, model_pos). work self cont acc tile_x tile_y model_pos)
               workload)
        (\<lambda>starmap_results.
      bindE (assemble (tiles cont) starmap_results aes_key) (\<lambda>aes_key'.
      bindE (mapE bytes aes_key') (\<lambda>printed. Inr aes_key'))))))"

definition run ::
  "linalg \<Rightarrow> engine \<Rightarrow> container \<Rightarrow> (nat \<times> nat) option \<Rightarrow> error + nat list list" where
  "run lin = run_units (run_workload lin)"

section \<open>Inputs for the examples\<close>

text \<open>
  An instance of the two library routines, used where an example runs the scorer: the
  factor is the matrix itself and the solution is the right-hand side. The examples
  are chosen so that their result does not depend on what the routines return.
\<close>

definition lin_plain :: linalg where
  "lin_plain = \<lparr>cholesky = (\<lambda>G. Inr G), solve_triangular = (\<lambda>a b lower. Inr b)\<rparr>"

text \<open>An engine set up for the sample range \<open>0..2\<close>, and two containers without observations.\<close>

definition engine_two :: engine where
  "engine_two = LRA_init\<lparr>samples_range := 2, samples_start := 0, samples_end := 2\<rparr>"

definition container_no_batch :: container where
  "container_no_batch =
     \<lparr>tiles = [(0, 0)], model_positions = [0], sample_length = 2,
      get_batches = (\<lambda>tile pos. [])\<rparr>"

definition container_no_rows :: container where
  "container_no_rows =
     \<lparr>tiles = [(0, 0)], model_positions = [0], sample_length = 2,
      get_batches = (\<lambda>tile pos. [([], []), ([], [])])\<rparr>"


text \<open>
  A container with one tile and the key-byte positions 1 and 0, in that order. For
  either position the stream is one batch: the 256 plaintext bytes \<open>0..255\<close>, each
  with the one-sample trace \<open>[0]\<close>.
\<close>

definition container_zero :: container where
  "container_zero =
     \<lparr>tiles = [(0, 0)], model_positions = [1, 0], sample_length = 1,
      get_batches = (\<lambda>tile pos. [([0..<256], replicate 256 [0])])\<rparr>"

text \<open>
  A unit of work whose winning byte tells its position: 160 plus the position. It
  stands for units that have completed with different bytes.
\<close>

definition unit_stub ::
  "engine \<Rightarrow> container \<Rightarrow> AverageTraces \<Rightarrow> int \<Rightarrow> int \<Rightarrow> nat
     \<Rightarrow> error + (int \<times> int \<times> nat \<times> nat)" where
  "unit_stub self cont acc tile_x tile_y model_pos =
     Inr (tile_x, tile_y, model_pos, 160 + model_pos)"

definition container_swapped :: container where
  "container_swapped =
     \<lparr>tiles = [(0, 0)], model_positions = [1, 0], sample_length = 1,
      get_batches = (\<lambda>tile pos. [])\<rparr>"

section \<open>Properties\<close>

lemma bindE_Inr_iff:
  "bindE m f = Inr y \<longleftrightarrow> (\<exists>x. m = Inr x \<and> f x = Inr y)"
  by (cases m) (simp_all add: bindE_def)

lemma bindE_simps:
  "bindE (Inl e) f = Inl e" "bindE (Inr x) f = f x"
  by (simp_all add: bindE_def)

text \<open>
  C8. For a byte value \<open>x\<close> and a bit width \<open>w\<close> between 1 and 8 the bit-model builder
  returns \<open>w + 1\<close> entries: entry \<open>i < w\<close> is bit \<open>i\<close> of \<open>x\<close>, least significant first,
  and the last entry is the constant 1. The builder is a function of its two arguments
  alone.
\<close>

theorem model_single_bits_spec:
  assumes "0 \<le> x" "x < 256" "1 \<le> w" "w \<le> 8"
  shows "length (model_single_bits x w) = nat w + 1
    \<and> (\<forall>i < nat w. model_single_bits x w ! i = (x div 2 ^ i) mod 2)
    \<and> (\<forall>i < nat w. model_single_bits x w ! i = (if bit x i then 1 else 0))
    \<and> model_single_bits x w ! nat w = 1
    \<and> last (model_single_bits x w) = 1"
  by (simp add: model_single_bits_def nth_append drop_bit_eq_div and_one_eq
      bit_iff_odd mod_2_eq_odd)

theorem model_single_bits_spec_witness:
  "model_single_bits 6 3 = [0, 1, 1, 1]
    \<and> length (model_single_bits 6 3) = nat 3 + 1
    \<and> model_single_bits 6 3 ! 1 = (6 div 2 ^ 1) mod 2
    \<and> last (model_single_bits 6 3) = 1"
proof -
  have "model_single_bits 6 3 = [0, 1, 1, 1]"
    by (simp add: model_single_bits_def upt_conv_Cons drop_bit_eq_div and_one_eq)
  moreover have "(0::int) \<le> 6" "(6::int) < 256" "(1::int) \<le> 3" "(3::int) \<le> 8"
    by simp_all
  from model_single_bits_spec [OF this]
  have "length (model_single_bits 6 3) = nat 3 + 1
    \<and> model_single_bits 6 3 ! 1 = (6 div 2 ^ 1) mod 2
    \<and> last (model_single_bits 6 3) = 1"
    by auto
  ultimately show ?thesis by simp
qed


subsection \<open>The accumulator\<close>

lemma mapE_total:
  "(\<And>x. x \<in> set xs \<Longrightarrow> f x = Inr (g x)) \<Longrightarrow> mapE f xs = Inr (map g xs)"
  by (induction xs) (simp_all add: bindE_simps)

lemma add_traces_append:
  "add_traces s b (xs @ ys) = bindE (add_traces s b xs) (\<lambda>s'. add_traces s' b ys)"
  by (induction xs arbitrary: s) (auto simp: bindE_def split: sum.splits)

lemma add_trace_same:
  assumes "b < length (counters s)" "b < length (avtraces s)"
    "length t = length (avtraces s ! b)"
  shows "\<exists>s'. add_trace s b t = Inr s'
     \<and> counters s' ! b = counters s ! b + 1
     \<and> avtraces s' ! b = (if counters s ! b = 0 then t
          else map2 (\<lambda>a x. a + (x - a) / real (counters s ! b)) (avtraces s ! b) t)
     \<and> length (counters s') = length (counters s)
     \<and> length (avtraces s') = length (avtraces s)"
  using assms by (simp add: add_trace_def broadcast_to_def bindE_simps Let_def)

lemma batch_mean_length:
  "ts \<noteq> [] \<Longrightarrow> \<forall>u \<in> set ts. length u = L \<Longrightarrow> length (batch_mean ts) = L"
  by (cases ts) (simp_all add: batch_mean_def)

lemma batch_mean_nth:
  "ts \<noteq> [] \<Longrightarrow> \<forall>u \<in> set ts. length u = L \<Longrightarrow> j < L \<Longrightarrow>
     batch_mean ts ! j = (\<Sum>t\<leftarrow>ts. t ! j) / real (length ts)"
  by (cases ts) (simp_all add: batch_mean_def)

lemma batch_mean_snoc:
  assumes "ts \<noteq> []" "\<forall>u \<in> set ts. length u = L" "length t = L"
  shows "map2 (\<lambda>a x. a + (x - a) / real (length ts + 1)) (batch_mean ts) t
       = batch_mean (ts @ [t])"
proof (rule nth_equalityI)
  have all: "\<forall>u \<in> set (ts @ [t]). length u = L"
    using assms by simp
  show "length (map2 (\<lambda>a x. a + (x - a) / real (length ts + 1)) (batch_mean ts) t)
      = length (batch_mean (ts @ [t]))"
    using batch_mean_length [OF assms(1,2)] batch_mean_length [OF _ all] assms(3) by simp
  fix j
  assume "j < length (map2 (\<lambda>a x. a + (x - a) / real (length ts + 1)) (batch_mean ts) t)"
  then have j: "j < L"
    using batch_mean_length [OF assms(1,2)] assms(3) by simp
  have k: "real (length ts) \<noteq> 0"
    using assms(1) by simp
  show "map2 (\<lambda>a x. a + (x - a) / real (length ts + 1)) (batch_mean ts) t ! j
      = batch_mean (ts @ [t]) ! j"
    using j k assms(3) batch_mean_length [OF assms(1,2)]
      batch_mean_nth [OF assms(1,2) j] batch_mean_nth [OF _ all j]
    by (simp add: field_simps)
qed

text \<open>
  What \<open>add_trace\<close> computes for one byte value, starting from a zero counter: the
  counter is the number of traces added, and from the second trace on the stored
  average is the mean of all traces but the first (the second call divides the
  difference by the counter 1 and so overwrites the first trace).
\<close>

lemma add_traces_drops_first:
  assumes "b < length (counters s)" "b < length (avtraces s)" "counters s ! b = 0"
    "length (avtraces s ! b) = L" "length t1 = L" "\<forall>u \<in> set ts. length u = L"
  shows "\<exists>s'. add_traces s b (t1 # ts) = Inr s'
     \<and> counters s' ! b = length (t1 # ts)
     \<and> avtraces s' ! b = (if ts = [] then t1 else batch_mean ts)
     \<and> length (counters s') = length (counters s)
     \<and> length (avtraces s') = length (avtraces s)
     \<and> length (avtraces s' ! b) = L"
  using assms(6)
proof (induction ts rule: rev_induct)
  case Nil
  from add_trace_same [of b s t1] assms show ?case
    by (auto simp: bindE_simps)
next
  case (snoc t ts)
  then obtain s1 where s1: "add_traces s b (t1 # ts) = Inr s1"
    "counters s1 ! b = length (t1 # ts)"
    "avtraces s1 ! b = (if ts = [] then t1 else batch_mean ts)"
    "length (counters s1) = length (counters s)"
    "length (avtraces s1) = length (avtraces s)"
    "length (avtraces s1 ! b) = L"
    by auto
  have t: "length t = L"
    using snoc.prems by simp
  from add_trace_same [of b s1 t] s1 assms t
  obtain s2 where s2: "add_trace s1 b t = Inr s2" "counters s2 ! b = counters s1 ! b + 1"
    "avtraces s2 ! b
       = map2 (\<lambda>a x. a + (x - a) / real (counters s1 ! b)) (avtraces s1 ! b) t"
    "length (counters s2) = length (counters s1)"
    "length (avtraces s2) = length (avtraces s1)"
    by auto
  have run: "add_traces s b (t1 # ts @ [t]) = Inr s2"
    using add_traces_append [of s b "t1 # ts" "[t]"] s1(1) s2(1) by (simp add: bindE_simps)
  have avg: "avtraces s2 ! b = batch_mean (ts @ [t])"
  proof (cases "ts = []")
    case True
    have "map2 (\<lambda>a x. a + (x - a)) t1 t = t"
      using t assms(5) by (intro nth_equalityI) auto
    moreover have "batch_mean [t] = t"
      by (simp add: batch_mean_def map_nth)
    ultimately show ?thesis
      using True s2(3) s1(2,3) by simp
  next
    case False
    with batch_mean_snoc [of ts L t] snoc.prems t s2(3) s1(2,3) show ?thesis
      by simp
  qed
  have "length (avtraces s2 ! b) = L"
    using avg t snoc.prems batch_mean_length [of "ts @ [t]" L] by simp
  with run avg s2 s1 show ?case
    by simp
qed

text \<open>
  C1, evaluated on the code. Two one-sample traces \<open>[0]\<close> and \<open>[2]\<close> are added for byte
  value 0 to a fresh accumulator of 256 values. The counter is 2, the number of traces
  added, but the stored average is \<open>[2]\<close> while the mean of the two traces is \<open>[1]\<close>.
\<close>

theorem add_trace_mean_failing_input:
  "bindE (add_traces (AverageTraces_init 256 1) 0 [[0], [2]])
      (\<lambda>s. Inr (avtraces s ! 0, counters s ! 0)) = Inr ([2], 2)
   \<and> batch_mean [[0], [2]] = [1]"
  by (simp add: add_trace_def AverageTraces_init_def bindE_simps broadcast_to_def
      batch_mean_def Let_def)

text \<open>
  C5. In an accumulator (one row of averages per counter) \<open>get_data\<close> returns exactly
  the byte values whose counter is not zero, in ascending order, and with them, in the
  same order, their average traces. A byte value with a zero counter has no entry.
\<close>

theorem get_data_spec:
  assumes "length (avtraces self) = length (counters self)"
  shows "\<exists>idx rows. get_data self = Inr (idx, rows)
     \<and> set idx = {b. b < length (counters self) \<and> counters self ! b \<noteq> 0}
     \<and> sorted_wrt (<) idx
     \<and> length rows = length idx
     \<and> rows = map (\<lambda>b. avtraces self ! b) idx"
proof -
  let ?idx = "flatnonzero (counters self)"
  have "mapE (\<lambda>i. if i < length (avtraces self) then Inr (avtraces self ! i)
                  else Inl IndexError) ?idx
      = Inr (map (\<lambda>b. avtraces self ! b) ?idx)"
    by (rule mapE_total) (auto simp: flatnonzero_def assms)
  then show ?thesis
    by (auto simp: get_data_def Let_def bindE_simps flatnonzero_def sorted_wrt_filter)
qed

theorem get_data_spec_witness:
  "get_data \<lparr>avtraces = [[1], [2], [3]], counters = [0, 2, 1]\<rparr> = Inr ([1, 2], [[2], [3]])
   \<and> (\<exists>idx rows. get_data \<lparr>avtraces = [[1], [2], [3]], counters = [0, 2, 1]\<rparr> = Inr (idx, rows)
        \<and> sorted_wrt (<) idx \<and> length rows = length idx)"
proof -
  have "length (avtraces \<lparr>avtraces = [[1], [2], [3]], counters = [0, 2, 1]\<rparr>)
      = length (counters \<lparr>avtraces = [[1::real], [2], [3]], counters = [0, 2, 1]\<rparr>)"
    by simp
  from get_data_spec [OF this]
  have "\<exists>idx rows. get_data \<lparr>avtraces = [[1], [2], [3]], counters = [0, 2, 1]\<rparr> = Inr (idx, rows)
        \<and> sorted_wrt (<) idx \<and> length rows = length idx"
    by blast
  moreover have "get_data \<lparr>avtraces = [[1], [2], [3]], counters = [0, 2, 1]\<rparr>
      = Inr ([1, 2], [[2], [3]])"
    by (simp add: get_data_def flatnonzero_def upt_conv_Cons bindE_simps Let_def)
  ultimately show ?thesis
    by simp
qed

text \<open>
  C10. A successful \<open>add_trace\<close> for byte value \<open>b\<close> leaves the counter and the average
  of every other byte value \<open>w\<close> as they were, and changes no length.
\<close>

theorem add_trace_frame:
  assumes "add_trace self b t = Inr self'" "w \<noteq> b"
  shows "counters self' ! w = counters self ! w
     \<and> avtraces self' ! w = avtraces self ! w
     \<and> length (counters self') = length (counters self)
     \<and> length (avtraces self') = length (avtraces self)"
  using assms
  by (auto simp: add_trace_def bindE_Inr_iff Let_def split: if_splits)

theorem add_trace_frame_witness:
  "add_trace \<lparr>avtraces = [[1], [5]], counters = [1, 1]\<rparr> 0 [3]
      = Inr \<lparr>avtraces = [[3], [5]], counters = [2, 1]\<rparr>
   \<and> counters \<lparr>avtraces = [[3], [5]], counters = [2, 1]\<rparr> ! 1
      = counters \<lparr>avtraces = [[1::real], [5]], counters = [1, 1]\<rparr> ! 1
   \<and> avtraces \<lparr>avtraces = [[3], [5]], counters = [2, 1]\<rparr> ! 1
      = avtraces \<lparr>avtraces = [[1::real], [5]], counters = [1, 1]\<rparr> ! 1"
proof -
  have run: "add_trace \<lparr>avtraces = [[1], [5]], counters = [1, 1]\<rparr> 0 [3]
      = Inr \<lparr>avtraces = [[3], [5]], counters = [2, 1]\<rparr>"
    by (simp add: add_trace_def broadcast_to_def bindE_simps Let_def)
  have ne: "(1::nat) \<noteq> 0"
    by simp
  from add_trace_frame [OF run ne] run show ?thesis
    by simp
qed

subsection \<open>The transform pair\<close>

lemma ilog2_pow: "ilog2 (2 ^ k) = k"
proof (induction k)
  case 0 show ?case by (simp add: ilog2.simps)
next
  case (Suc k)
  have "\<not> (2::nat) ^ Suc k < 2" by simp
  then show ?case using Suc by (subst ilog2.simps) simp
qed

lemma hadamard_pow: "hadamard (2 ^ k) = Inr (hadamard_doubled k)"
  by (simp add: hadamard_def ilog2_pow)

lemma hadamard_doubled_length: "length (hadamard_doubled k) = 2 ^ k"
  by (induction k) (simp_all add: Let_def)










lemma matvec_length: "length (matvec H x) = length H"
  by (simp add: matvec_def)




lemma WHT_pow:
  "length x = 2 ^ k \<Longrightarrow> WHT x = Inr (map (\<lambda>y. y / 2 ^ k) (matvec (hadamard_doubled k) x))"
  by (simp add: WHT_def hadamard_pow bindE_simps Let_def)

lemma iWHT_pow:
  "length x = 2 ^ k \<Longrightarrow> iWHT x = Inr (matvec (hadamard_doubled k) x)"
  by (simp add: iWHT_def hadamard_pow bindE_simps Let_def)


subsection \<open>The round trip in float64 arithmetic\<close>

lemma dot_zeros: "dot r (replicate n 0) = 0"
proof (induction r arbitrary: n)
  case Nil show ?case by (simp add: dot_def)
next
  case (Cons h r) then show ?case by (cases n) (simp_all add: dot_def)
qed









lemma on_grid_mono: "on_grid j A v \<Longrightarrow> A \<le> B \<Longrightarrow> on_grid j B v"
  unfolding on_grid_def by force





























subsection \<open>The sums of a work unit\<close>

text \<open>
  One batch holding the single one-sample trace \<open>[1]\<close>: the sum and the sum of squares
  come out as \<open>[2]\<close>, twice the sample, because \<open>tmp_u\<close> and \<open>tmp_v\<close> are the arrays \<open>u\<close>
  and \<open>v\<close> themselves, which \<^verbatim>\<open>update\<close> has already added to.
\<close>

lemma run_workload_state_one_batch:
  "bindE (run_workload_state
            (LRA_init\<lparr>samples_range := 1, samples_start := 0, samples_end := 1\<rparr>)
            [([0], [[1]])] (AverageTraces_init 256 1))
     (\<lambda>(acc, n_tr, v, u). bindE (calc_sst v u n_tr) (\<lambda>sst. Inr (n_tr, v, u, sst)))
   = Inr (1, [2], [2], [Finite (- 2)])"
  by (simp add: run_workload_state_def np_zeros_def bindE_simps update_def iadd_def
      add_trace_def AverageTraces_init_def broadcast_to_def Let_def calc_sst_def
      broadcast2_def)

text \<open>
  C2, evaluated on the code. A unit streams two batches, each with the one trace \<open>[1]\<close>
  for plaintext byte 0, over the sample range \<open>0..1\<close>. The two observations have the
  sum 2 and the sum of squares 2. The unit ends with \<open>n_tr = 3\<close>, \<open>v = [6]\<close>, \<open>u = [6]\<close>
  and passes \<open>sst = [-6]\<close> to the scorer.
\<close>

theorem run_workload_state_failing_input:
  "bindE (run_workload_state
            (LRA_init\<lparr>samples_range := 1, samples_start := 0, samples_end := 1\<rparr>)
            [([0], [[1]]), ([0], [[1]])] (AverageTraces_init 256 1))
     (\<lambda>(acc, n_tr, v, u). bindE (calc_sst v u n_tr) (\<lambda>sst. Inr (n_tr, v, u, sst)))
   = Inr (3, [6], [6], [Finite (- 6)])"
  by (simp add: run_workload_state_def np_zeros_def bindE_simps update_def iadd_def
      add_trace_def AverageTraces_init_def broadcast_to_def Let_def calc_sst_def
      broadcast2_def)

subsection \<open>The order of \<open>np.max\<close> and \<open>np.argmax\<close>\<close>

lemma np_less_irrefl: "\<not> np_less a a"
  by (cases a) simp_all

lemma np_less_asym: "np_less a b \<Longrightarrow> \<not> np_less b a"
  by (cases a; cases b) simp_all

lemma np_le_refl: "np_le a a"
  by (simp add: np_le_def np_less_irrefl)

lemma np_le_trans: "np_le a b \<Longrightarrow> np_le b c \<Longrightarrow> np_le a c"
  unfolding np_le_def by (cases a; cases b; cases c) simp_all


lemma np_less_imp_le: "np_less a b \<Longrightarrow> np_le a b"
  by (simp add: np_le_def np_less_asym)

lemma np_maximum_cases: "np_maximum a b = a \<or> np_maximum a b = b"
  by (simp add: np_maximum_def)

lemma np_maximum_ge: "np_le a (np_maximum a b)" "np_le b (np_maximum a b)"
  by (simp_all add: np_maximum_def np_le_refl np_less_imp_le) (simp add: np_le_def)

lemma foldl_np_maximum:
  "foldl np_maximum x xs \<in> set (x # xs)
   \<and> (\<forall>y \<in> set (x # xs). np_le y (foldl np_maximum x xs))"
proof (induction xs arbitrary: x)
  case Nil
  show ?case by (simp add: np_le_refl)
next
  case (Cons a xs)
  from Cons.IH [of "np_maximum x a"]
  have m: "foldl np_maximum (np_maximum x a) xs \<in> set (np_maximum x a # xs)"
    and u: "\<forall>y \<in> set (np_maximum x a # xs). np_le y (foldl np_maximum (np_maximum x a) xs)"
    by simp_all
  have top: "np_le (np_maximum x a) (foldl np_maximum (np_maximum x a) xs)"
    using u by simp
  have "np_le x (foldl np_maximum (np_maximum x a) xs)"
    "np_le a (foldl np_maximum (np_maximum x a) xs)"
    using np_le_trans [OF np_maximum_ge(1) top] np_le_trans [OF np_maximum_ge(2) top] by simp_all
  moreover have "foldl np_maximum (np_maximum x a) xs \<in> set (x # a # xs)"
    using m np_maximum_cases [of x a] by auto
  ultimately show ?case
    using u by simp
qed

lemma np_max_spec:
  assumes "np_max xs = Inr p"
  shows "p \<in> set xs \<and> (\<forall>y \<in> set xs. np_le y p)"
proof (cases xs)
  case Nil
  with assms show ?thesis by (simp add: np_max_def)
next
  case (Cons x rest)
  with assms have "p = foldl np_maximum x rest"
    by (simp add: np_max_def)
  with foldl_np_maximum [of x rest] Cons show ?thesis
    by simp
qed

lemma np_max_nonempty: "xs \<noteq> [] \<Longrightarrow> \<exists>p. np_max xs = Inr p"
  by (cases xs) (simp_all add: np_max_def)




subsection \<open>A stream without observations\<close>

lemma iadd_zeros_self:
  "h a = replicate L 0 \<Longrightarrow> iadd h a (h a) = Inr h"
proof -
  assume a: "h a = replicate L 0"
  have "h(a := replicate L 0) = h"
    using a by (metis fun_upd_triv)
  then show ?thesis
    by (simp add: iadd_def broadcast_to_def bindE_simps a)
qed

lemma run_batches_no_rows:
  assumes "\<forall>b \<in> set bs. snd b = []" "h v = replicate L 0" "h u = replicate L 0"
  shows "run_batches self bs acc 0 v u h = Inr (acc, 0, h)"
  using assms(1)
proof (induction bs)
  case Nil
  show ?case by simp
next
  case (Cons b bs)
  then have b: "snd b = []" and IH: "run_batches self bs acc 0 v u h = Inr (acc, 0, h)"
    by simp_all
  have v: "iadd h v (h v) = Inr h" and u: "iadd h u (h u) = Inr h"
    using iadd_zeros_self [of h v L] iadd_zeros_self [of h u L] assms(2,3) by simp_all
  show ?case
    by (simp add: b update_def bindE_simps v u IH)
qed

lemma flatnonzero_zeros: "flatnonzero (replicate n 0) = []"
  by (simp add: flatnonzero_def filter_empty_conv)

lemma get_data_init: "get_data (AverageTraces_init n L) = Inr ([], [])"
  by (simp add: get_data_def AverageTraces_init_def flatnonzero_zeros bindE_simps)

lemma calc_sst_zero_count:
  "calc_sst (replicate L 0) (replicate L 0) 0 = Inr (replicate L NaN)"
  by (simp add: calc_sst_def broadcast2_def bindE_simps)

lemma lra_no_data: "lra lin [] [] sb sst = Inl LinAlgError"
  by (simp add: lra_def shape2_def s_box_out_def bindE_simps)

lemma run_workload_no_rows:
  assumes "\<forall>b \<in> set (get_batches cont (tile_x, tile_y) model_pos). snd b = []"
    and "0 \<le> samples_range self"
  shows "run_workload_state self (get_batches cont (tile_x, tile_y) model_pos)
           (AverageTraces_init 256 (nat (samples_range self)))
         = Inr (AverageTraces_init 256 (nat (samples_range self)), 0,
                replicate (nat (samples_range self)) 0, replicate (nat (samples_range self)) 0)"
    and "calculate lin self model_pos (AverageTraces_init 256 (nat (samples_range self))) 0
           (replicate (nat (samples_range self)) 0) (replicate (nat (samples_range self)) 0)
         = Inl LinAlgError"
    and "run_workload lin self cont (AverageTraces_init 256 (nat (samples_range self)))
           tile_x tile_y model_pos = Inl LinAlgError"
proof -
  let ?L = "nat (samples_range self)"
  let ?h = "(\<lambda>a. [])(0 := replicate ?L (0::real), 1 := replicate ?L 0)"
  show st: "run_workload_state self (get_batches cont (tile_x, tile_y) model_pos)
           (AverageTraces_init 256 ?L)
         = Inr (AverageTraces_init 256 ?L, 0, replicate ?L 0, replicate ?L 0)"
  proof -
    have "run_batches self (get_batches cont (tile_x, tile_y) model_pos)
        (AverageTraces_init 256 ?L) 0 0 1 ?h = Inr (AverageTraces_init 256 ?L, 0, ?h)"
      by (rule run_batches_no_rows [OF assms(1), where L = ?L]) simp_all
    then show ?thesis
      using assms(2) by (simp add: run_workload_state_def np_zeros_def bindE_simps)
  qed
  show calc: "calculate lin self model_pos (AverageTraces_init 256 ?L) 0
           (replicate ?L 0) (replicate ?L 0)
         = Inl LinAlgError"
    by (simp add: calculate_def get_data_init calc_sst_zero_count bindE_simps lra_no_data)
  show "run_workload lin self cont (AverageTraces_init 256 ?L) tile_x tile_y model_pos
      = Inl LinAlgError"
    by (simp add: run_workload_def st calc bindE_simps)
qed

text \<open>
  C7, as the code has it. A unit starts from a fresh accumulator and a sample range
  that is not negative, and its stream yields no observation (no batch, or only
  batches without rows). Nothing is checked before scoring: the stream ends with
  \<open>n_tr = 0\<close> and zero-filled \<open>v\<close> and \<open>u\<close>; \<^verbatim>\<open>calculate\<close> finds no observed byte value,
  forms \<open>sst = v - u ** 2 / n_tr\<close> with the count 0, which is NaN at every sample point,
  and calls the scorer with it; the scorer fails on the empty model matrix, and the
  unit ends with that LinAlgError.
\<close>

theorem empty_stream_not_detected:
  assumes "\<forall>b \<in> set (get_batches cont (tile_x, tile_y) model_pos). snd b = []"
    and "0 \<le> samples_range self"
  shows "run_workload_state self (get_batches cont (tile_x, tile_y) model_pos)
           (AverageTraces_init 256 (nat (samples_range self)))
         = Inr (AverageTraces_init 256 (nat (samples_range self)), 0,
                replicate (nat (samples_range self)) 0, replicate (nat (samples_range self)) 0)
     \<and> get_data (AverageTraces_init 256 (nat (samples_range self))) = Inr ([], [])
     \<and> calc_sst (replicate (nat (samples_range self)) 0) (replicate (nat (samples_range self)) 0) 0
         = Inr (replicate (nat (samples_range self)) NaN)
     \<and> lra lin [] [] (sbox self) (replicate (nat (samples_range self)) NaN) = Inl LinAlgError
     \<and> calculate lin self model_pos (AverageTraces_init 256 (nat (samples_range self))) 0
           (replicate (nat (samples_range self)) 0) (replicate (nat (samples_range self)) 0)
         = Inl LinAlgError
     \<and> run_workload lin self cont (AverageTraces_init 256 (nat (samples_range self)))
           tile_x tile_y model_pos = Inl LinAlgError"
  by (intro conjI run_workload_no_rows [OF assms] calc_sst_zero_count lra_no_data
      get_data_init)

theorem empty_stream_not_detected_witness:
  "run_workload_state engine_two (get_batches container_no_rows (0, 0) 0)
       (AverageTraces_init 256 2)
     = Inr (AverageTraces_init 256 2, 0, replicate 2 0, replicate 2 0)
   \<and> calc_sst (replicate 2 0) (replicate 2 0) 0 = Inr (replicate 2 NaN)
   \<and> run_workload lin_plain engine_two container_no_rows (AverageTraces_init 256 2) 0 0 0
     = Inl LinAlgError"
proof -
  have rows: "\<forall>b \<in> set (get_batches container_no_rows (0, 0) 0). snd b = []"
    by (simp add: container_no_rows_def)
  have range: "0 \<le> samples_range engine_two"
    by (simp add: engine_two_def)
  have two: "nat (samples_range engine_two) = 2"
    by (simp add: engine_two_def)
  from empty_stream_not_detected [OF rows range, of lin_plain] show ?thesis
    unfolding two by simp
qed

text \<open>
  The claim fails on a unit whose stream has no batch: the count 0 divides when \<open>sst\<close>
  is formed, and the unit reports the scorer's LinAlgError.
\<close>

theorem empty_stream_counterexample:
  "run_workload_state engine_two (get_batches container_no_batch (0, 0) 0)
       (AverageTraces_init 256 2)
     = Inr (AverageTraces_init 256 2, 0, [0, 0], [0, 0])
   \<and> calc_sst [0, 0] [0, 0] 0 = Inr [NaN, NaN]
   \<and> run_workload lin_plain engine_two container_no_batch (AverageTraces_init 256 2) 0 0 0
     = Inl LinAlgError"
proof -
  have rows: "\<forall>b \<in> set (get_batches container_no_batch (0, 0) 0). snd b = []"
    by (simp add: container_no_batch_def)
  have range: "0 \<le> samples_range engine_two"
    by (simp add: engine_two_def)
  have two: "nat (samples_range engine_two) = 2"
    by (simp add: engine_two_def)
  have r: "replicate 2 (0::real) = [0, 0]" "replicate 2 NaN = [NaN, NaN]"
    by (simp_all add: numeral_2_eq_2)
  from run_workload_no_rows(1) [OF rows range]
    run_workload_no_rows(3) [OF rows range, of lin_plain] calc_sst_zero_count [of 2]
  show ?thesis
    unfolding two r by simp
qed

subsection \<open>The scorer\<close>

lemma mapE_Inr:
  "mapE f xs = Inr ys \<Longrightarrow> length ys = length xs \<and> (\<forall>j < length xs. f (xs ! j) = Inr (ys ! j))"
proof (induction xs arbitrary: ys)
  case Nil
  then show ?case by simp
next
  case (Cons x xs)
  from Cons.prems obtain y ys' where y: "f x = Inr y" and ys': "mapE f xs = Inr ys'"
    and ys: "ys = y # ys'"
    by (auto simp: bindE_Inr_iff)
  from Cons.IH [OF ys'] have "length ys' = length xs"
    and "\<forall>j < length xs. f (xs ! j) = Inr (ys' ! j)"
    by simp_all
  then show ?case
    using y ys by (auto simp: nth_Cons split: nat.splits)
qed

lemma sum_list_squares_nonneg: "0 \<le> (\<Sum>row\<leftarrow>rows. ((row ! k)::real)\<^sup>2)"
  by (rule sum_list_nonneg) auto

lemma lra_sample_entry:
  assumes "lra_sample U0_wht traces sst ncols i = Inr col"
  shows "length col = 256 \<and> i < length sst
     \<and> (\<forall>k < 256. \<exists>SSR. 0 \<le> SSR \<and> col ! k = np_div (Finite SSR) (sst ! i))"
proof -
  from assms obtain U0_iwht where
    m: "mapE (\<lambda>key_byte.
            if key_byte < ncols then
              (let SSR = (\<Sum>row\<leftarrow>U0_iwht. (row ! key_byte)\<^sup>2)
               in if i < length sst then Inr (np_div (Finite SSR) (sst ! i))
                  else Inl IndexError)
            else Inl IndexError) [0..<256] = Inr col"
    by (auto simp: lra_sample_def bindE_Inr_iff)
  from mapE_Inr [OF m] have len: "length col = 256"
    by simp
  have each: "(if k < ncols then
              (let SSR = (\<Sum>row\<leftarrow>U0_iwht. (row ! k)\<^sup>2)
               in if i < length sst then Inr (np_div (Finite SSR) (sst ! i))
                  else Inl IndexError)
            else Inl IndexError) = Inr (col ! k)" if "k < 256" for k
  proof -
    have "[0..<256] ! k = k" "k < length [0..<256]"
      using that by simp_all
    with mapE_Inr [OF m] show ?thesis
      by metis
  qed
  have "(0::nat) < 256"
    by simp
  from each [OF this] have i: "i < length sst"
    by (simp add: Let_def split: if_splits)
  have "\<exists>SSR. 0 \<le> SSR \<and> col ! k = np_div (Finite SSR) (sst ! i)" if "k < 256" for k
    using each [OF that] sum_list_squares_nonneg [of k U0_iwht]
    by (auto simp: Let_def split: if_splits)
  with len i show ?thesis by simp
qed

lemma lra_entry:
  assumes "lra lin data traces sb sst = Inr R2"
    and "shape2 traces = Inr (num_traces, trace_length)"
  shows "length R2 = 256
     \<and> (\<forall>k < 256. length (R2 ! k) = trace_length
          \<and> (\<forall>i < trace_length. i < length sst
                \<and> (\<exists>SSR. 0 \<le> SSR \<and> R2 ! k ! i = np_div (Finite SSR) (sst ! i))))"
proof -
  from assms obtain U0_wht ncols cols where
    cols: "mapE (lra_sample U0_wht traces sst ncols) [0..<trace_length] = Inr cols"
    and R2: "R2 = map (\<lambda>key_byte. map (\<lambda>col. col ! key_byte) cols) [0..<256]"
    by (auto simp: lra_def bindE_Inr_iff Let_def)
  from mapE_Inr [OF cols] have len: "length cols = trace_length"
    by simp
  have each: "lra_sample U0_wht traces sst ncols i = Inr (cols ! i)" if "i < trace_length" for i
  proof -
    have "[0..<trace_length] ! i = i" "i < length [0..<trace_length]"
      using that by simp_all
    with mapE_Inr [OF cols] show ?thesis
      by metis
  qed
  have "i < length sst \<and> (\<exists>SSR. 0 \<le> SSR \<and> R2 ! k ! i = np_div (Finite SSR) (sst ! i))"
    if "k < 256" "i < trace_length" for k i
    using lra_sample_entry [OF each [OF that(2)]] that len by (simp add: R2)
  then show ?thesis
    using len by (simp add: R2)
qed

lemma np_le_top: "np_le NaN p \<Longrightarrow> p = NaN" "np_le PosInf p \<Longrightarrow> p = NaN \<or> p = PosInf"
  by (cases p; simp add: np_le_def)+

lemma matvec_zeros: "matvec H (replicate n 0) = replicate (length H) 0"
  by (simp add: matvec_def dot_zeros map_replicate_const)

lemma WHT_zeros: "WHT (replicate (2 ^ k) 0) = Inr (replicate (2 ^ k) 0)"
  by (simp add: WHT_pow matvec_zeros hadamard_doubled_length)

lemma iWHT_zeros: "iWHT (replicate (2 ^ k) 0) = Inr (replicate (2 ^ k) 0)"
  by (simp add: iWHT_pow matvec_zeros hadamard_doubled_length)

lemma times_zeros:
  "length row = n \<Longrightarrow> map (\<lambda>(a, b). a * b) (zip row (replicate n (0::real))) = replicate n 0"
  by (induction row arbitrary: n) auto

lemma s_box_out_zero_key:
  "\<forall>d \<in> set data. d < length sb \<Longrightarrow> s_box_out data 0 sb = Inr (map (\<lambda>d. sb ! d) data)"
  unfolding s_box_out_def by (rule mapE_total) simp

lemma wrapper_length: "length (wrapper 8 x) = 9"
  by (simp add: wrapper_def model_single_bits_def)

text \<open>One sample point of the scorer when every average is zero at it.\<close>

lemma lra_sample_zero_column:
  assumes "\<forall>row \<in> set U0_wht. length row = 2 ^ k" "column traces i = replicate (2 ^ k) 0"
    "i < length sst" "256 \<le> (2::nat) ^ k"
  shows "lra_sample U0_wht traces sst (2 ^ k) i
       = Inr (replicate 256 (np_div (Finite 0) (sst ! i)))"
proof -
  let ?z = "replicate (2 ^ k) (0::real)"
  have rows: "mapE (\<lambda>row. bindE (broadcast2 row ?z) (\<lambda>ps.
                 bindE (iWHT (map (\<lambda>(a, b). a * b) ps)) (broadcast_to (2 ^ k))))
              (butlast U0_wht) = Inr (map (\<lambda>row. ?z) (butlast U0_wht))"
  proof (rule mapE_total)
    fix row assume "row \<in> set (butlast U0_wht)"
    then have l: "length row = 2 ^ k"
      using assms(1) by (auto dest: in_set_butlastD)
    then show "bindE (broadcast2 row ?z) (\<lambda>ps.
                 bindE (iWHT (map (\<lambda>(a, b). a * b) ps)) (broadcast_to (2 ^ k))) = Inr ?z"
      by (simp add: broadcast2_def bindE_simps times_zeros iWHT_zeros broadcast_to_def)
  qed
  have ssr: "(\<Sum>row\<leftarrow>map (\<lambda>row. ?z) (butlast U0_wht). (row ! key_byte)\<^sup>2) = 0"
    if "key_byte < 256" for key_byte
  proof -
    have "key_byte < 2 ^ k" using that assms(4) by simp
    then show ?thesis by (simp add: o_def)
  qed
  have keys: "mapE (\<lambda>key_byte.
            if key_byte < 2 ^ k then
              (let SSR = (\<Sum>row\<leftarrow>map (\<lambda>row. ?z) (butlast U0_wht). (row ! key_byte)\<^sup>2)
               in if i < length sst then Inr (np_div (Finite SSR) (sst ! i))
                  else Inl IndexError)
            else Inl IndexError) [0..<256]
       = Inr (map (\<lambda>key_byte. np_div (Finite 0) (sst ! i)) [0..<256])"
  proof (rule mapE_total)
    fix key_byte :: nat assume "key_byte \<in> set [0..<256]"
    then have kb: "key_byte < 256" by simp
    then have "key_byte < 2 ^ k" using assms(4) by simp
    then show "(if key_byte < 2 ^ k then
              (let SSR = (\<Sum>row\<leftarrow>map (\<lambda>row. ?z) (butlast U0_wht). (row ! key_byte)\<^sup>2)
               in if i < length sst then Inr (np_div (Finite SSR) (sst ! i))
                  else Inl IndexError)
            else Inl IndexError) = Inr (np_div (Finite 0) (sst ! i))"
      using ssr [OF kb] assms(3) by (simp add: Let_def)
  qed
  show ?thesis
    unfolding lra_sample_def assms(2) WHT_zeros bindE_simps rows keys
    by (simp add: map_replicate_const)
qed

text \<open>
  The scorer on 256 observed byte values whose average traces are all zero, with the
  library instance \<open>lin_plain\<close>: every entry of \<open>R2\<close> is the quotient \<open>0 / sst[i]\<close>.
\<close>

lemma lra_zero_traces:
  assumes "length data = 256" "\<forall>d \<in> set data. d < length sb" "ncol \<le> length sst"
  shows "lra lin_plain data (replicate 256 (replicate ncol 0)) sb sst
       = Inr (replicate 256 (map (\<lambda>i. np_div (Finite 0) (sst ! i)) [0..<ncol]))"
proof -
  let ?iv = "map (\<lambda>d. sb ! d) data"
  let ?M0 = "map (\<lambda>x. map real_of_int (wrapper 8 (int x))) ?iv"
  let ?U0 = "transpose ?M0"
  have sh: "shape2 (replicate 256 (replicate ncol (0::real))) = Inr (256, ncol)"
  proof -
    have "replicate 256 (replicate ncol (0::real)) = replicate ncol 0 # replicate 255 (replicate ncol 0)"
      by (simp add: numeral_eq_Suc)
    then show ?thesis
      by (simp add: shape2_def list_all_iff)
  qed
  have M0_ne: "?M0 \<noteq> []"
    using assms(1) by auto
  have M0_len: "length ?M0 = 256"
    using assms(1) by simp
  have M0_rows: "\<And>j. j < length ?M0 \<Longrightarrow> length (?M0 ! j) = 9"
    by (simp add: wrapper_length)
  have U0: "?U0 = map (\<lambda>c. map (\<lambda>j. ?M0 ! j ! c) [0..<length ?M0]) [0..<9]"
    by (rule transpose_rectangle) (use M0_ne M0_rows in simp_all)
  have U0_rows: "\<forall>row \<in> set ?U0. length row = 2 ^ 8"
    unfolding U0 using M0_len by auto
  have U0_ne: "?U0 \<noteq> []"
    unfolding U0 by (simp add: upt_conv_Cons)
  have ncols: "(case ?U0 of [] \<Rightarrow> 0 | r # rs \<Rightarrow> length r) = 2 ^ 8"
    using U0_ne U0_rows by (cases ?U0) simp_all
  obtain U0_wht where wht: "mapE WHT ?U0 = Inr U0_wht"
    and wht_rows: "\<forall>row \<in> set U0_wht. length row = 2 ^ 8"
  proof -
    let ?g = "\<lambda>r. map (\<lambda>y. y / 2 ^ 8) (matvec (hadamard_doubled 8) r)"
    have "mapE WHT ?U0 = Inr (map ?g ?U0)"
      by (rule mapE_total) (use U0_rows WHT_pow [of _ 8] in auto)
    moreover have "\<forall>row \<in> set (map ?g ?U0). length row = 2 ^ 8"
      by (simp add: matvec_length hadamard_doubled_length)
    ultimately show ?thesis
      using that by blast
  qed
  have cols: "mapE (lra_sample U0_wht (replicate 256 (replicate ncol 0)) sst (2 ^ 8)) [0..<ncol]
      = Inr (map (\<lambda>i. replicate 256 (np_div (Finite 0) (sst ! i))) [0..<ncol])"
  proof (rule mapE_total)
    fix i assume "i \<in> set [0..<ncol]"
    then have i: "i < ncol" by simp
    have col: "column (replicate 256 (replicate ncol (0::real))) i = replicate (2 ^ 8) 0"
      using i by (simp add: column_def)
    show "lra_sample U0_wht (replicate 256 (replicate ncol 0)) sst (2 ^ 8) i
        = Inr (replicate 256 (np_div (Finite 0) (sst ! i)))"
      by (rule lra_sample_zero_column [OF wht_rows col]) (use i assms(3) in simp_all)
  qed
  have R2: "map (\<lambda>key_byte. map (\<lambda>col. col ! key_byte)
               (map (\<lambda>i. replicate 256 (np_div (Finite 0) (sst ! i))) [0..<ncol])) [0..<256]
      = replicate 256 (map (\<lambda>i. np_div (Finite 0) (sst ! i)) [0..<ncol])"
  proof -
    have "map (\<lambda>col. col ! key_byte)
               (map (\<lambda>i. replicate 256 (np_div (Finite 0) (sst ! i))) [0..<ncol])
        = map (\<lambda>i. np_div (Finite 0) (sst ! i)) [0..<ncol]" if "key_byte \<in> set [0..<256]" for key_byte
      using that by simp
    then have "map (\<lambda>key_byte. map (\<lambda>col. col ! key_byte)
               (map (\<lambda>i. replicate 256 (np_div (Finite 0) (sst ! i))) [0..<ncol])) [0..<256]
        = map (\<lambda>key_byte. map (\<lambda>i. np_div (Finite 0) (sst ! i)) [0..<ncol]) [0..<256]"
      by (intro map_cong) simp_all
    then show ?thesis
      by (simp add: map_replicate_const)
  qed
  have chol: "(if ?M0 = [] then Inl LinAlgError
               else cholesky lin_plain (matmul (transpose ?M0) ?M0))
      = Inr (matmul (transpose ?M0) ?M0)"
    using M0_ne by (simp add: lin_plain_def)
  have solve: "solve_triangular lin_plain (transpose (matmul (transpose ?M0) ?M0)) ?U0 True
      = Inr ?U0"
    by (simp add: lin_plain_def)
  show ?thesis
    unfolding lra_def sh s_box_out_zero_key [OF assms(2)] bindE_simps prod.case Let_def
      chol solve wht ncols cols R2 ..
qed

lemma aes_sbox_length: "length aes_sbox = 256"
  by (simp add: aes_sbox_def)



lemma lra_zero_example:
  "lra lin_plain [0..<256] (replicate 256 [0]) aes_sbox [s]
     = Inr (replicate 256 [np_div (Finite 0) s])"
proof -
  have "lra lin_plain [0..<256] (replicate 256 (replicate 1 0)) aes_sbox [s]
     = Inr (replicate 256 (map (\<lambda>i. np_div (Finite 0) ([s] ! i)) [0..<1]))"
    by (rule lra_zero_traces) (simp_all add: aes_sbox_length)
  then show ?thesis
    by simp
qed

lemma np_argmax_const: "0 < n \<Longrightarrow> np_argmax (replicate n x) = Inr 0"
proof -
  have scan: "argmax_scan (replicate m x) i b x = b" for m i b
    by (induction m arbitrary: i) (simp_all add: np_less_irrefl)
  assume "0 < n"
  then obtain m where "n = Suc m"
    by (cases n) simp_all
  then show ?thesis
    by (simp add: np_argmax_def scan)
qed

lemma np_max_rows_single: "mapE np_max (replicate n [x]) = Inr (replicate n x)"
proof -
  have "mapE np_max (replicate n [x]) = Inr (map (\<lambda>r. x) (replicate n [x]))"
    by (rule mapE_total) (simp add: np_max_def)
  then show ?thesis by (simp add: map_replicate_const)
qed


text \<open>
  C6, as the code has it. \<^verbatim>\<open>lra\<close> has no guard for a zero \<open>sst\<close>. Whenever it returns
  and \<open>sst[i]\<close> is zero at a sample point \<open>i\<close>, the entry \<open>R2[key_byte, i]\<close> of every
  hypothesis is the quotient \<open>SSR / 0\<close>: NaN when \<open>SSR\<close> is zero and plus infinity
  otherwise, never zero. The point stays in the row, and the maximum of the row, which
  is what the peak reduction takes, is then NaN or plus infinity.
\<close>

theorem lra_zero_sst_unguarded:
  assumes "lra lin data traces sb sst = Inr R2"
    and "shape2 traces = Inr (num_traces, trace_length)"
    and "i < trace_length" and "sst ! i = Finite 0" and "key_byte < 256"
  shows "(R2 ! key_byte ! i = NaN \<or> R2 ! key_byte ! i = PosInf)
     \<and> (\<exists>p. np_max (R2 ! key_byte) = Inr p \<and> (p = NaN \<or> p = PosInf))"
proof -
  from lra_entry [OF assms(1,2)] assms(3,5)
  obtain SSR where len: "length (R2 ! key_byte) = trace_length" and "0 \<le> SSR"
    and "R2 ! key_byte ! i = np_div (Finite SSR) (sst ! i)"
    by blast
  then have e: "R2 ! key_byte ! i = NaN \<or> R2 ! key_byte ! i = PosInf"
    using assms(4) by simp
  have ne: "R2 ! key_byte \<noteq> []"
    using len assms(3) by auto
  then obtain p where p: "np_max (R2 ! key_byte) = Inr p"
    using np_max_nonempty by blast
  have "R2 ! key_byte ! i \<in> set (R2 ! key_byte)"
    using len assms(3) by simp
  with np_max_spec [OF p] have "np_le (R2 ! key_byte ! i) p"
    by blast
  with e np_le_top have "p = NaN \<or> p = PosInf"
    by metis
  with e p show ?thesis by simp
qed

theorem lra_zero_sst_unguarded_witness:
  "lra lin_plain [0..<256] (replicate 256 [0]) aes_sbox [Finite 0] = Inr (replicate 256 [NaN])
   \<and> (replicate 256 [NaN] ! 7 ! 0 = NaN \<or> replicate 256 [NaN] ! 7 ! 0 = PosInf)
   \<and> (\<exists>p. np_max (replicate 256 [NaN] ! 7) = Inr p \<and> (p = NaN \<or> p = PosInf))"
proof -
  have run: "lra lin_plain [0..<256] (replicate 256 [0]) aes_sbox [Finite 0]
      = Inr (replicate 256 [NaN])"
    using lra_zero_example [of "Finite 0"] by simp
  have sh: "shape2 (replicate 256 [0::real]) = Inr (256, 1)"
  proof -
    have "replicate 256 [0::real] = [0] # replicate 255 [0]"
      by (simp add: numeral_eq_Suc)
    then show ?thesis
      by (simp add: shape2_def list_all_iff)
  qed
  have i: "(0::nat) < 1" and z: "[Finite 0] ! 0 = Finite 0" and k: "(7::nat) < 256"
    by simp_all
  from lra_zero_sst_unguarded [OF run sh i z k] run show ?thesis
    by blast
qed

text \<open>
  The claim fails where all 256 byte values were observed, every average trace is the
  one sample 0 and \<open>sst\<close> is zero there: the scorer divides, every entry of \<open>R2\<close> is NaN,
  every peak is NaN, and \<open>np.argmax\<close> answers 0.
\<close>

theorem lra_zero_sst_counterexample:
  "lra lin_plain [0..<256] (replicate 256 [0]) aes_sbox [Finite 0] = Inr (replicate 256 [NaN])
   \<and> mapE np_max (replicate 256 [NaN]) = Inr (replicate 256 NaN)
   \<and> np_argmax (replicate 256 NaN) = Inr 0"
  using lra_zero_example [of "Finite 0"]
  by (simp add: np_max_rows_single np_argmax_const)




subsection \<open>The dispatcher and the key assembler\<close>

lemma mapE_Inr_map:
  "mapE f xs = Inr ys \<Longrightarrow> ys = map (\<lambda>x. projr (f x)) xs \<and> (\<forall>x \<in> set xs. f x = Inr (projr (f x)))"
proof (induction xs arbitrary: ys)
  case Nil
  then show ?case by simp
next
  case (Cons x xs)
  from Cons.prems obtain y ys' where y: "f x = Inr y" and ys': "mapE f xs = Inr ys'"
    and ys: "ys = y # ys'"
    by (auto simp: bindE_Inr_iff)
  from Cons.IH [OF ys'] y ys show ?case
    by simp
qed

lemma index_of_Inr: "index_of xs y = Inr i \<Longrightarrow> i < length xs \<and> xs ! i = y"
proof (induction xs arbitrary: i)
  case Nil
  then show ?case by simp
next
  case (Cons x xs)
  then show ?case
    by (auto simp: bindE_Inr_iff split: if_splits)
qed

text \<open>Every byte is appended to the key of the tile that its result names.\<close>

lemma assemble_filter:
  assumes "assemble tls res ks = Inr keys" "length ks = length tls" "distinct tls"
  shows "length keys = length ks
     \<and> (\<forall>t < length ks. keys ! t
           = ks ! t @ map (\<lambda>r. snd (snd (snd r))) (filter (\<lambda>r. (fst r, fst (snd r)) = tls ! t) res))"
  using assms(1,2)
proof (induction res arbitrary: ks)
  case Nil
  then show ?case by simp
next
  case (Cons r res)
  obtain tx ty mp b where r: "r = (tx, ty, mp, b)"
    by (cases r) auto
  from Cons.prems(1) r obtain ti where ti: "index_of tls (tx, ty) = Inr ti"
    and rest: "assemble tls res (ks[ti := ks ! ti @ [b]]) = Inr keys"
    by (auto simp: bindE_Inr_iff)
  from index_of_Inr [OF ti] have til: "ti < length tls" and tit: "tls ! ti = (tx, ty)"
    by simp_all
  from Cons.IH [OF rest] Cons.prems(2)
  have len: "length keys = length ks"
    and each: "\<And>t. t < length ks \<Longrightarrow> keys ! t
           = (ks[ti := ks ! ti @ [b]]) ! t
             @ map (\<lambda>r. snd (snd (snd r))) (filter (\<lambda>r. (fst r, fst (snd r)) = tls ! t) res)"
    by simp_all
  have "keys ! t = ks ! t @ map (\<lambda>r. snd (snd (snd r)))
          (filter (\<lambda>r. (fst r, fst (snd r)) = tls ! t) (r # res))" if t: "t < length ks" for t
  proof (cases "t = ti")
    case True
    with each [OF t] t tit show ?thesis
      by (simp add: r)
  next
    case False
    have "tls ! t \<noteq> (tx, ty)"
      using False t til tit assms(3) Cons.prems(2) by (metis nth_eq_iff_index_eq)
    with each [OF t] False show ?thesis
      by (simp add: r)
  qed
  with len show ?case by simp
qed

lemma filter_concat_tiles:
  assumes "distinct tls" "t < length tls"
  shows "filter (\<lambda>w. fst w = tls ! t) (concat (map (\<lambda>tile. map (\<lambda>p. (tile, p)) ps) tls))
       = map (\<lambda>p. (tls ! t, p)) ps"
  using assms
proof (induction tls arbitrary: t)
  case Nil
  then show ?case by simp
next
  case (Cons a tls)
  have blk: "filter (\<lambda>w. fst w = x) (map (\<lambda>p. (tile, p)) ps)
      = (if tile = x then map (\<lambda>p. (tile, p)) ps else [])" for x tile :: 'a
    by (induction ps) auto
  show ?case
  proof (cases t)
    case 0
    have "filter (\<lambda>w. fst w = a) (concat (map (\<lambda>tile. map (\<lambda>p. (tile, p)) ps) tls)) = []"
      using Cons.prems(1) by (auto simp: filter_empty_conv)
    with 0 show ?thesis by (simp add: blk)
  next
    case (Suc j)
    with Cons.prems have "tls ! j \<noteq> a" and j: "j < length tls" and d: "distinct tls"
      by auto
    with Cons.IH [OF d j] Suc show ?thesis
      by (simp add: blk)
  qed
qed

lemma mapE_const:
  "mapE (\<lambda>p. c) xs = Inr ys \<Longrightarrow> xs \<noteq> [] \<Longrightarrow> \<exists>v. c = Inr v \<and> ys = replicate (length xs) v"
proof (induction xs arbitrary: ys)
  case Nil
  then show ?case by simp
next
  case (Cons x xs)
  from Cons.prems obtain v ys' where v: "c = Inr v" and ys': "mapE (\<lambda>p. c) xs = Inr ys'"
    and ys: "ys = v # ys'"
    by (auto simp: bindE_Inr_iff)
  show ?case
  proof (cases "xs = []")
    case True
    with ys' ys v show ?thesis by simp
  next
    case False
    from Cons.IH [OF ys' False] v ys show ?thesis by auto
  qed
qed

lemma mapE_bytes: "mapE bytes ks = Inr p \<Longrightarrow> \<forall>key \<in> set ks. \<forall>b \<in> set key. b < 256"
proof (induction ks arbitrary: p)
  case Nil
  then show ?case by simp
next
  case (Cons k ks)
  then show ?case
    by (auto simp: bindE_Inr_iff bytes_def list_all_iff split: if_splits)
qed

text \<open>
  The key of every tile lists the bytes of its units in the order of \<open>model_positions\<close>,
  for every worker that returns the tile it was given.
\<close>

lemma run_units_key_order:
  assumes run: "run_units work self0 cont sr = Inr keys"
    and dist: "distinct (tiles cont)"
    and echo: "\<forall>s c acc tx ty pos r. work s c acc tx ty pos = Inr r
                 \<longrightarrow> fst r = tx \<and> fst (snd r) = ty"
  shows "length keys = length (tiles cont)"
    and "t < length (tiles cont) \<Longrightarrow> length (keys ! t) = length (model_positions cont)"
    and "t < length (tiles cont) \<Longrightarrow> j < length (model_positions cont) \<Longrightarrow>
          \<exists>tx ty p. work (run_setup self0 cont sr) cont
            (AverageTraces_init 256 (nat (samples_range (run_setup self0 cont sr))))
            (fst (tiles cont ! t)) (snd (tiles cont ! t)) (model_positions cont ! j)
          = Inr (tx, ty, p, keys ! t ! j)"
    and "t < length (tiles cont) \<Longrightarrow> j < length (model_positions cont) \<Longrightarrow>
          keys ! t ! j < 256"
proof -
  let ?self = "run_setup self0 cont sr"
  let ?P = "model_positions cont"
  let ?T = "tiles cont"
  let ?W = "concat (map (\<lambda>tile. map (\<lambda>p. (tile, p)) ?P) ?T)"
  let ?acc = "AverageTraces_init 256 (nat (samples_range ?self))"
  from run obtain avs wl res pr where
    avs: "mapE (\<lambda>p. AverageTraces_new 256 (samples_range ?self)) ?P = Inr avs"
    and wl: "mapE (\<lambda>(tile, model_pos).
                     if model_pos < length avs
                     then Inr (avs ! model_pos, fst tile, snd tile, model_pos)
                     else Inl IndexError) ?W = Inr wl"
    and res: "mapE (\<lambda>(acc, tile_x, tile_y, model_pos). work ?self cont acc tile_x tile_y model_pos) wl
        = Inr res"
    and asm: "assemble ?T res (replicate (length ?T) []) = Inr keys"
    and pr: "mapE bytes keys = Inr pr"
    by (auto simp: run_units_def Let_def bindE_Inr_iff)
  have avs_eq: "avs = replicate (length ?P) ?acc" if "?P \<noteq> []"
    using mapE_const [OF avs that] by (auto simp: AverageTraces_new_def split: if_splits)
  let ?f = "\<lambda>(tile, model_pos).
                     if model_pos < length avs
                     then Inr (avs ! model_pos, fst tile, snd tile, model_pos)
                     else Inl IndexError"
  let ?g = "\<lambda>(acc, tile_x, tile_y, model_pos). work ?self cont acc tile_x tile_y model_pos"
  let ?G = "\<lambda>w. projr (?g (projr (?f w)))"
  from mapE_Inr_map [OF wl] have wl_eq: "wl = map (\<lambda>w. projr (?f w)) ?W"
    and wl_ok: "\<forall>w \<in> set ?W. ?f w = Inr (projr (?f w))"
    by simp_all
  from mapE_Inr_map [OF res] have res_eq: "res = map (\<lambda>x. projr (?g x)) wl"
    and res_ok: "\<forall>x \<in> set wl. ?g x = Inr (projr (?g x))"
    by simp_all
  have res_W: "res = map ?G ?W"
    unfolding res_eq wl_eq by (simp add: o_def)
  have unit: "?f (tile, p) = Inr (?acc, fst tile, snd tile, p)
      \<and> work ?self cont ?acc (fst tile) (snd tile) p = Inr (?G (tile, p))
      \<and> (fst (?G (tile, p)), fst (snd (?G (tile, p)))) = tile"
    if "tile \<in> set ?T" "p \<in> set ?P" for tile p
  proof -
    have w: "(tile, p) \<in> set ?W"
      using that by auto
    with wl_ok have ok: "?f (tile, p) = Inr (projr (?f (tile, p)))"
      by blast
    then have pl: "p < length avs"
      by (auto split: if_splits)
    have "?P \<noteq> []"
      using that(2) by (cases ?P) simp_all
    then have av: "avs = replicate (length ?P) ?acc"
      by (rule avs_eq)
    have f: "?f (tile, p) = Inr (?acc, fst tile, snd tile, p)"
      using pl av by simp
    have "projr (?f (tile, p)) \<in> set wl"
      unfolding wl_eq set_map using w by (rule imageI)
    with res_ok have "?g (projr (?f (tile, p))) = Inr (?G (tile, p))"
      by blast
    then have g: "work ?self cont ?acc (fst tile) (snd tile) p = Inr (?G (tile, p))"
      using f pl av by simp
    from echo [rule_format, OF g] f g show ?thesis
      by simp
  qed
  from assemble_filter [OF asm _ dist]
  have len: "length keys = length ?T"
    and key: "\<And>t. t < length ?T \<Longrightarrow> keys ! t
        = map (\<lambda>r. snd (snd (snd r))) (filter (\<lambda>r. (fst r, fst (snd r)) = ?T ! t) res)"
    by simp_all
  show "length keys = length ?T"
    by (rule len)
  have kt: "keys ! t = map (\<lambda>p. snd (snd (snd (?G (?T ! t, p))))) ?P" if t: "t < length ?T" for t
  proof -
    have "filter (\<lambda>r. (fst r, fst (snd r)) = ?T ! t) res
        = map ?G (filter (\<lambda>w. (fst (?G w), fst (snd (?G w))) = ?T ! t) ?W)"
      unfolding res_W by (simp add: filter_map o_def)
    also have "filter (\<lambda>w. (fst (?G w), fst (snd (?G w))) = ?T ! t) ?W
        = filter (\<lambda>w. fst w = ?T ! t) ?W"
    proof (rule filter_cong [OF refl])
      fix w assume "w \<in> set ?W"
      then obtain tile p where w: "w = (tile, p)" and tp: "tile \<in> set ?T" "p \<in> set ?P"
        by auto
      from unit [OF tp] have "(fst (?G (tile, p)), fst (snd (?G (tile, p)))) = tile"
        by (rule conjunct2 [THEN conjunct2])
      then have e: "(fst (?G w), fst (snd (?G w))) = fst w"
        unfolding w fst_conv .
      show "((fst (?G w), fst (snd (?G w))) = ?T ! t) = (fst w = ?T ! t)"
        by (simp only: e)
    qed
    also have "\<dots> = map (\<lambda>p. (?T ! t, p)) ?P"
      by (rule filter_concat_tiles [OF dist t])
    finally have flt: "filter (\<lambda>r. (fst r, fst (snd r)) = ?T ! t) res
        = map ?G (map (\<lambda>p. (?T ! t, p)) ?P)" .
    show ?thesis
      unfolding key [OF t] flt by (simp add: o_def)
  qed
  show lk: "length (keys ! t) = length ?P" if "t < length ?T"
    by (simp add: kt [OF that])
  show "\<exists>tx ty p. work ?self cont ?acc (fst (?T ! t)) (snd (?T ! t)) (?P ! j)
      = Inr (tx, ty, p, keys ! t ! j)" if t: "t < length ?T" and j: "j < length ?P"
  proof -
    define r where "r = ?G (?T ! t, ?P ! j)"
    have kj: "keys ! t ! j = snd (snd (snd r))"
      unfolding r_def using j by (simp add: kt [OF t])
    have tp: "?T ! t \<in> set ?T" "?P ! j \<in> set ?P"
      using t j by simp_all
    from unit [OF tp] have wr: "work ?self cont ?acc (fst (?T ! t)) (snd (?T ! t)) (?P ! j) = Inr r"
      unfolding r_def by (rule conjunct2 [THEN conjunct1])
    obtain tx ty p b where rr: "r = (tx, ty, p, b)"
      by (rule prod_cases4)
    have "work ?self cont ?acc (fst (?T ! t)) (snd (?T ! t)) (?P ! j) = Inr (tx, ty, p, keys ! t ! j)"
      unfolding kj wr rr by simp
    then show ?thesis
      by (intro exI)
  qed
  show "keys ! t ! j < 256" if t: "t < length ?T" and j: "j < length ?P"
  proof -
    have "keys ! t \<in> set keys" "keys ! t ! j \<in> set (keys ! t)"
      using len t j lk [OF t] by simp_all
    with mapE_bytes [OF pr] show ?thesis
      by blast
  qed
qed

lemma run_workload_echo:
  "run_workload lin self cont acc tx ty pos = Inr r \<Longrightarrow> fst r = tx \<and> fst (snd r) = ty \<and> fst (snd (snd r)) = pos"
  by (auto simp: run_workload_def bindE_Inr_iff)

lemma add_trace_zero:
  assumes "avtraces acc = replicate 256 (replicate L 0)" "length (counters acc) = 256" "g < 256"
  shows "add_trace acc g (replicate L 0)
       = Inr (acc\<lparr>counters := (counters acc)[g := counters acc ! g + 1]\<rparr>)"
proof -
  have row: "avtraces acc ! g = replicate L 0"
    using assms by simp
  have z: "map2 (\<lambda>a x. a + (x - a) / real c) (replicate L 0) (replicate L 0) = replicate L (0::real)" for c
    by (simp add: zip_replicate)
  have upd: "(avtraces acc)[g := replicate L 0] = avtraces acc"
    using row by (metis list_update_id)
  show ?thesis
    using assms(2,3) assms(1) [THEN arg_cong, of length]
    by (simp add: add_trace_def row broadcast_to_def bindE_simps Let_def z upd)
qed

lemma iadd_zeros:
  "h a = replicate L 0 \<Longrightarrow> iadd h a (replicate L 0) = Inr h"
  using iadd_zeros_self [of h a L] by simp

lemma update_rows_zero:
  assumes "avtraces acc = replicate 256 (replicate L 0)" "length (counters acc) = 256"
    "\<forall>g \<in> set gs. g < 256" "h v = replicate L 0" "h u = replicate L 0"
  shows "\<exists>acc'. update_rows (replicate (length gs) (replicate L 0)) gs acc n v u h
         = Inr (acc', n + length gs, h)
     \<and> avtraces acc' = replicate 256 (replicate L 0) \<and> length (counters acc') = 256
     \<and> (\<forall>b < 256. counters acc ! b \<le> counters acc' ! b)
     \<and> (\<forall>g \<in> set gs. 0 < counters acc' ! g)"
  using assms(1,2,3)
proof (induction gs arbitrary: acc n)
  case Nil
  then show ?case by simp
next
  case (Cons g gs)
  let ?acc1 = "acc\<lparr>counters := (counters acc)[g := counters acc ! g + 1]\<rparr>"
  have g: "g < 256" using Cons.prems(3) by simp
  have a1: "add_trace acc g (replicate L 0) = Inr ?acc1"
    by (rule add_trace_zero [OF Cons.prems(1,2) g])
  have sq: "map (\<lambda>x. x * x) (replicate L (0::real)) = replicate L 0"
    by simp
  have p1: "avtraces ?acc1 = replicate 256 (replicate L 0)" "length (counters ?acc1) = 256"
    "\<forall>g \<in> set gs. g < 256"
    using Cons.prems by simp_all
  from Cons.IH [OF p1, of "n + 1"] obtain acc' where
    r: "update_rows (replicate (length gs) (replicate L 0)) gs ?acc1 (n + 1) v u h
         = Inr (acc', n + 1 + length gs, h)"
    and i: "avtraces acc' = replicate 256 (replicate L 0)" "length (counters acc') = 256"
      "\<forall>b < 256. counters ?acc1 ! b \<le> counters acc' ! b"
      "\<forall>g \<in> set gs. 0 < counters acc' ! g"
    by blast
  have iu: "iadd h u (replicate L 0) = Inr h" and iv: "iadd h v (replicate L 0) = Inr h"
    using iadd_zeros [of h u L] iadd_zeros [of h v L] assms(4,5) by simp_all
  have step: "update_rows (replicate (length (g # gs)) (replicate L 0)) (g # gs) acc n v u h
      = Inr (acc', n + length (g # gs), h)"
    using r by (simp add: a1 bindE_simps iu iv sq)
  have mono: "counters acc ! b \<le> counters acc' ! b" if "b < 256" for b
  proof -
    have "counters acc ! b \<le> counters ?acc1 ! b"
      using Cons.prems(2) that by (cases "b = g") simp_all
    with i(3) that show ?thesis
      using le_trans by blast
  qed
  have "0 < counters ?acc1 ! g"
    using Cons.prems(2) g by simp
  with i(3) g have "0 < counters acc' ! g"
    by (metis less_le_trans)
  with step i mono show ?case
    by auto
qed

lemma get_data_all_observed:
  assumes "avtraces acc = replicate 256 z" "length (counters acc) = 256"
    "\<forall>g < 256. 0 < counters acc ! g"
  shows "get_data acc = Inr ([0..<256], replicate 256 z)"
proof -
  have c: "flatnonzero (counters acc) = [0..<256]"
    using assms(2,3) by (simp add: flatnonzero_def filter_id_conv)
  have "mapE (\<lambda>i. if i < length (avtraces acc) then Inr (avtraces acc ! i)
                  else Inl IndexError) [0..<256]
      = Inr (map (\<lambda>i. z) [0..<256])"
    by (rule mapE_total) (simp add: assms(1))
  then show ?thesis
    unfolding get_data_def c Let_def by (simp add: bindE_simps map_replicate_const)
qed

lemma run_setup_zero:
  "run_setup LRA_init container_zero None
     = \<lparr>sbox = aes_sbox, samples_range = 1, samples_start = 0, samples_end = 1\<rparr>"
  by (simp add: run_setup_def LRA_init_def container_zero_def)

lemma run_workload_zero_unit:
  "run_workload lin_plain (run_setup LRA_init container_zero None) container_zero
       (AverageTraces_init 256 1) 0 0 pos = Inr (0, 0, pos, 0)"
proof -
  let ?self = "\<lparr>sbox = aes_sbox, samples_range = 1, samples_start = 0, samples_end = 1\<rparr>"
  let ?h = "(\<lambda>a. [])(0 := replicate 1 (0::real), 1 := replicate 1 0)"
  let ?acc = "AverageTraces_init 256 1"
  have rows: "map (\<lambda>row. take (samples_end ?self - samples_start ?self)
                 (drop (samples_start ?self) row)) (replicate 256 [0::real])
      = replicate (length [0..<256]) (replicate 1 0)"
    by simp
  from update_rows_zero [of ?acc 1 "[0..<256]" ?h 0 1 0]
  obtain acc' where
    u: "update_rows (replicate (length [0..<256]) (replicate 1 0)) [0..<256] ?acc 0 0 1 ?h
         = Inr (acc', 0 + length [0..<256], ?h)"
    and a: "avtraces acc' = replicate 256 (replicate 1 0)" "length (counters acc') = 256"
    and c: "\<forall>g \<in> set [0..<256]. 0 < counters acc' ! g"
    by (auto simp: AverageTraces_init_def)
  have iv: "iadd ?h 0 (?h 0) = Inr ?h" and iu: "iadd ?h 1 (?h 1) = Inr ?h"
    using iadd_zeros_self [of ?h 0 1] iadd_zeros_self [of ?h 1 1] by simp_all
  have batches: "run_batches ?self [([0..<256], replicate 256 [0])] ?acc 0 0 1 ?h
      = Inr (acc', 256, ?h)"
    unfolding run_batches.simps fst_conv snd_conv rows update_def u bindE_simps prod.case iv iu
    by simp
  have state: "run_workload_state ?self [([0..<256], replicate 256 [0])] ?acc
      = Inr (acc', 256, [0], [0])"
    unfolding run_workload_state_def using batches
    by (simp add: np_zeros_def bindE_simps)
  have gd: "get_data acc' = Inr ([0..<256], replicate 256 [0])"
    using get_data_all_observed [OF a(1,2)] c by simp
  have sst: "calc_sst [0] [0] 256 = Inr [Finite 0]"
    by (simp add: calc_sst_def broadcast2_def bindE_simps)
  have calc: "calculate lin_plain ?self pos acc' 256 [0] [0] = Inr 0"
    unfolding calculate_def gd sst bindE_simps prod.case
    using lra_zero_example [of "Finite 0"]
    by (simp add: bindE_simps np_max_rows_single np_argmax_const)
  have gb: "get_batches container_zero (0, 0) pos = [([0..<256], replicate 256 [0])]"
    by (simp add: container_zero_def)
  show ?thesis
    unfolding run_setup_zero run_workload_def gb state bindE_simps prod.case calc ..
qed

lemma run_zero: "run lin_plain LRA_init container_zero None = Inr [[0, 0]]"
proof -
  let ?self = "run_setup LRA_init container_zero None"
  have sr: "samples_range ?self = 1"
    by (simp add: run_setup_zero)
  have new: "AverageTraces_new 256 1 = Inr (AverageTraces_init 256 1)"
    by (simp add: AverageTraces_new_def)
  have tl: "tiles container_zero = [(0, 0)]" and mp: "model_positions container_zero = [1, 0]"
    by (simp_all add: container_zero_def)
  show ?thesis
    unfolding run_def run_units_def Let_def sr tl mp
    by (simp add: new bindE_simps run_workload_zero_unit bytes_def del: One_nat_def)
qed

text \<open>
  C9, as the code has it. When \<^verbatim>\<open>run\<close> completes on distinct tiles, there is one key
  per tile, and the key of a tile has one byte per entry of \<open>model_positions\<close>: its
  \<open>j\<close>-th byte is the winning byte that the unit of that tile and of the position
  \<open>model_positions[j]\<close> returned. The bytes stand in the order of \<open>model_positions\<close>,
  which is the order in which the results are appended.
\<close>

theorem run_key_order:
  assumes "run lin self0 cont sr = Inr keys" and "distinct (tiles cont)"
  shows "length keys = length (tiles cont)
     \<and> (\<forall>t < length (tiles cont).
          length (keys ! t) = length (model_positions cont)
        \<and> (\<forall>j < length (model_positions cont).
             keys ! t ! j < 256
           \<and> run_workload lin (run_setup self0 cont sr) cont
                (AverageTraces_init 256 (nat (samples_range (run_setup self0 cont sr))))
                (fst (tiles cont ! t)) (snd (tiles cont ! t)) (model_positions cont ! j)
              = Inr (fst (tiles cont ! t), snd (tiles cont ! t), model_positions cont ! j,
                     keys ! t ! j)))"
proof -
  have run: "run_units (run_workload lin) self0 cont sr = Inr keys"
    using assms(1) by (simp add: run_def)
  have echo: "\<forall>s c acc tx ty pos r. run_workload lin s c acc tx ty pos = Inr r
      \<longrightarrow> fst r = tx \<and> fst (snd r) = ty"
    using run_workload_echo by blast
  note ko = run_units_key_order [of "run_workload lin", OF run assms(2) echo]
  have unit: "run_workload lin (run_setup self0 cont sr) cont
                (AverageTraces_init 256 (nat (samples_range (run_setup self0 cont sr))))
                (fst (tiles cont ! t)) (snd (tiles cont ! t)) (model_positions cont ! j)
              = Inr (fst (tiles cont ! t), snd (tiles cont ! t), model_positions cont ! j,
                     keys ! t ! j)"
    if "t < length (tiles cont)" "j < length (model_positions cont)" for t j
  proof -
    from ko(3) [OF that] obtain tx ty p where
      r: "run_workload lin (run_setup self0 cont sr) cont
            (AverageTraces_init 256 (nat (samples_range (run_setup self0 cont sr))))
            (fst (tiles cont ! t)) (snd (tiles cont ! t)) (model_positions cont ! j)
          = Inr (tx, ty, p, keys ! t ! j)"
      by blast
    from run_workload_echo [OF r] show ?thesis
      unfolding r by simp
  qed
  show ?thesis
    using ko(1) ko(2) ko(4) unit by blast
qed

theorem run_key_order_witness:
  "run lin_plain LRA_init container_zero None = Inr [[0, 0]]
   \<and> distinct (tiles container_zero)
   \<and> length [[0::nat, 0]] = length (tiles container_zero)
   \<and> length ([[0::nat, 0]] ! 0) = length (model_positions container_zero)
   \<and> run_workload lin_plain (run_setup LRA_init container_zero None) container_zero
        (AverageTraces_init 256 (nat (samples_range (run_setup LRA_init container_zero None))))
        (fst (tiles container_zero ! 0)) (snd (tiles container_zero ! 0))
        (model_positions container_zero ! 0)
      = Inr (fst (tiles container_zero ! 0), snd (tiles container_zero ! 0),
             model_positions container_zero ! 0, [[0, 0]] ! 0 ! 0)"
proof -
  have d: "distinct (tiles container_zero)"
    by (simp add: container_zero_def)
  have t: "0 < length (tiles container_zero)" and j: "0 < length (model_positions container_zero)"
    by (simp_all add: container_zero_def)
  from run_key_order [OF run_zero d] t j run_zero d show ?thesis
    by blast
qed

text \<open>
  The claim fails for the positions 1 and 0 given in that order: the units complete
  with the byte 161 for position 1 and the byte 160 for position 0, and the key of the
  tile is 161, 160, the order of arrival, not 160, 161, the order of the positions.
\<close>

theorem run_key_order_counterexample:
  "run_units unit_stub LRA_init container_swapped None = Inr [[161, 160]]
   \<and> model_positions container_swapped = [1, 0]
   \<and> unit_stub (run_setup LRA_init container_swapped None) container_swapped
        (AverageTraces_init 256 1) 0 0 0 = Inr (0, 0, 0, 160)
   \<and> unit_stub (run_setup LRA_init container_swapped None) container_swapped
        (AverageTraces_init 256 1) 0 0 1 = Inr (0, 0, 1, 161)"
  by (simp add: run_units_def Let_def run_setup_def container_swapped_def LRA_init_def
      AverageTraces_new_def bindE_simps unit_stub_def bytes_def)

end
